theory Spec2Isabelle
  imports Main "HOL-Library.Char_ord" "HOL-Library.List_Lexorder"
begin

section \<open>Descriptors of the reflection library, as converter.py reads them\<close>

text \<open>
  \<^verbatim>\<open>descriptor.FieldDescriptor.LABEL_*\<close> and \<^verbatim>\<open>descriptor.FieldDescriptor.TYPE_*\<close>:
  the values of a field descriptor's \<^verbatim>\<open>label\<close> and \<^verbatim>\<open>type\<close> attributes.
\<close>

datatype label = LABEL_OPTIONAL | LABEL_REQUIRED | LABEL_REPEATED

datatype field_type =
    TYPE_DOUBLE | TYPE_FLOAT | TYPE_INT64 | TYPE_UINT64 | TYPE_INT32 | TYPE_FIXED64
  | TYPE_FIXED32 | TYPE_BOOL | TYPE_STRING | TYPE_GROUP | TYPE_MESSAGE | TYPE_BYTES
  | TYPE_UINT32 | TYPE_ENUM | TYPE_SFIXED32 | TYPE_SFIXED64 | TYPE_SINT32 | TYPE_SINT64

text \<open>
  A field descriptor and a message descriptor. \<open>ident\<close> is the identity of the descriptor
  object: Python's \<^verbatim>\<open>==\<close> and \<^verbatim>\<open>!=\<close> on descriptors compare objects, not contents.
  \<open>message_type\<close> is \<^verbatim>\<open>None\<close> for a field that is not of message type. A one-of group
  is kept as its name with the names of its member fields, the only attribute of a member
  the converter reads. \<open>has_options\<close> and \<open>map_entry\<close> are \<^verbatim>\<open>has_options\<close> and
  \<^verbatim>\<open>GetOptions().map_entry\<close>.
\<close>

datatype field_descriptor =
  FieldDescriptor (name: string) (label: label) (ftype: field_type)
    (message_type: "descriptor option")
and descriptor =
  Descriptor (ident: nat) (dname: string) (full_name: string)
    (fields: "field_descriptor list") (oneofs: "(string \<times> string list) list")
    (has_options: bool) (map_entry: bool)

text \<open>The exceptions the module raises or lets through, with what their messages format.\<close>

datatype error =
    NotImplementedError_fields "string set"
  | NotImplementedError_oneof string string
  | TypeError string string
  | KeyError string
  | AttributeError string
  | DecodeError
  | UserError string

text \<open>\<^verbatim>\<open>fields_by_name\<close>: the dict from field name to field descriptor.\<close>

definition fields_by_name :: "descriptor \<Rightarrow> string \<rightharpoonup> field_descriptor" where
  "fields_by_name d n = find (\<lambda>f. name f = n) (fields d)"

text \<open>
  \<^verbatim>\<open>any_pb2.DESCRIPTOR.message_types_by_name["Any"]\<close>: the descriptor of the any-wrapper
  type, with its two fields.
\<close>

definition any_ident :: nat where
  "any_ident = 0"

definition Any_DESCRIPTOR :: descriptor where
  "Any_DESCRIPTOR = Descriptor any_ident ''Any'' ''google.protobuf.Any''
     [FieldDescriptor ''type_url'' LABEL_OPTIONAL TYPE_STRING None,
      FieldDescriptor ''value'' LABEL_OPTIONAL TYPE_BYTES None] [] False False"

text \<open>Python's \<^verbatim>\<open>==\<close> on two \<^verbatim>\<open>message_type\<close> values: the same object, or both \<^verbatim>\<open>None\<close>.\<close>

definition same_descriptor :: "descriptor option \<Rightarrow> descriptor option \<Rightarrow> bool" where
  "same_descriptor a b = (map_option ident a = map_option ident b)"

definition is_any_field :: "field_descriptor \<Rightarrow> bool" where
  "is_any_field field_descriptor =
     same_descriptor (message_type field_descriptor) (Some Any_DESCRIPTOR)"

text \<open>
  \<^verbatim>\<open>_is_map_field\<close>. The third conjunct reads an attribute of \<^verbatim>\<open>message_type\<close>, which
  raises on \<^verbatim>\<open>None\<close>.
\<close>

definition is_map_field :: "field_descriptor \<Rightarrow> error + bool" where
  "is_map_field field_descriptor =
     (if label field_descriptor = LABEL_REPEATED \<and> ftype field_descriptor = TYPE_MESSAGE
      then (case message_type field_descriptor of
              None \<Rightarrow> Inl (AttributeError ''has_options'')
            | Some m \<Rightarrow> Inr (has_options m \<and> map_entry m))
      else Inr False)"

section \<open>The compatibility analysis\<close>

lemma find_size_less:
  "find P xs = Some y \<Longrightarrow> size y < Suc (size_list size xs)"
  by (induction xs) (auto split: if_splits)

lemma fields_by_name_size:
  "fields_by_name d n = Some f \<Longrightarrow> size f < size d"
  by (cases d) (auto simp: fields_by_name_def dest!: find_size_less)

lemma message_type_size:
  "message_type f = Some d \<Longrightarrow> size d < size f"
  by (cases f) auto

text \<open>
  \<^verbatim>\<open>_is_src_field_auto_convertible\<close>. A missing \<^verbatim>\<open>"key"\<close> or \<^verbatim>\<open>"value"\<close> in the source's
  entry type is the \<^verbatim>\<open>KeyError\<close> of the dict; \<^verbatim>\<open>or\<close> does not evaluate its second operand
  once the first holds.
\<close>

function is_src_field_auto_convertible ::
  "field_descriptor \<Rightarrow> (string \<rightharpoonup> field_descriptor) \<Rightarrow> error + bool" where
  "is_src_field_auto_convertible src_field dest_proto_fields_by_name =
     (case dest_proto_fields_by_name (name src_field) of
        None \<Rightarrow> Inr False
      | Some dest_field \<Rightarrow>
          if label dest_field \<noteq> label src_field \<or> ftype src_field \<noteq> ftype dest_field
          then Inr False
          else (case is_map_field src_field of
                  Inl e \<Rightarrow> Inl e
                | Inr True \<Rightarrow>
                    (case message_type src_field of
                       None \<Rightarrow> Inl (AttributeError ''fields_by_name'')
                     | Some src_m \<Rightarrow>
                    (case message_type dest_field of
                       None \<Rightarrow> Inl (AttributeError ''fields_by_name'')
                     | Some dest_m \<Rightarrow>
                    (case fields_by_name src_m ''key'' of
                       None \<Rightarrow> Inl (KeyError ''key'')
                     | Some src_key \<Rightarrow>
                    (case is_src_field_auto_convertible src_key (fields_by_name dest_m) of
                       Inl e \<Rightarrow> Inl e
                     | Inr False \<Rightarrow> Inr False
                     | Inr True \<Rightarrow>
                    (case fields_by_name src_m ''value'' of
                       None \<Rightarrow> Inl (KeyError ''value'')
                     | Some src_value \<Rightarrow>
                    (case is_src_field_auto_convertible src_value (fields_by_name dest_m) of
                       Inl e \<Rightarrow> Inl e
                     | Inr False \<Rightarrow> Inr False
                     | Inr True \<Rightarrow> Inr True))))))
                | Inr False \<Rightarrow>
                    if ftype src_field = TYPE_MESSAGE then
                      if is_any_field src_field \<and> is_any_field dest_field then Inr True
                      else if is_any_field src_field then Inr False
                      else if is_any_field dest_field then Inr True
                      else if \<not> same_descriptor (message_type src_field)
                                   (message_type dest_field)
                      then Inr False
                      else Inr True
                    else Inr True))"
  by pat_completeness auto
termination
proof (relation "measure (\<lambda>(f, _). size f)")
  show "wf (measure (\<lambda>(f, _). size f))" by simp
next
  fix src_field :: field_descriptor and src_m src_key
  assume "message_type src_field = Some src_m" "fields_by_name src_m ''key'' = Some src_key"
  then show "((src_key, fields_by_name dest_m), src_field, dest_proto_fields_by_name)
             \<in> measure (\<lambda>(f, _). size f)" for dest_m dest_proto_fields_by_name
    using fields_by_name_size message_type_size by fastforce
next
  fix src_field :: field_descriptor and src_m src_value
  assume "message_type src_field = Some src_m"
         "fields_by_name src_m ''value'' = Some src_value"
  then show "((src_value, fields_by_name dest_m), src_field, dest_proto_fields_by_name)
             \<in> measure (\<lambda>(f, _). size f)" for dest_m dest_proto_fields_by_name
    using fields_by_name_size message_type_size by fastforce
qed

declare is_src_field_auto_convertible.simps [simp del]

text \<open>
  The kind of a field in the specification's data model: scalar, enum or message. A field
  of message or of group type carries a nested schema type: both are of message kind.
\<close>

datatype kind = KIND_SCALAR | KIND_ENUM | KIND_MESSAGE

fun field_kind :: "field_type \<Rightarrow> kind" where
  "field_kind TYPE_ENUM = KIND_ENUM"
| "field_kind TYPE_MESSAGE = KIND_MESSAGE"
| "field_kind TYPE_GROUP = KIND_MESSAGE"
| "field_kind _ = KIND_SCALAR"

text \<open>
  The repetition label of the specification's data model, singular or repeated: the
  labels \<^verbatim>\<open>LABEL_OPTIONAL\<close> and \<^verbatim>\<open>LABEL_REQUIRED\<close> of a descriptor are both singular.
\<close>

datatype repetition = SINGULAR | REPEATED

fun repetition_label :: "label \<Rightarrow> repetition" where
  "repetition_label LABEL_REPEATED = REPEATED"
| "repetition_label _ = SINGULAR"

text \<open>\<^verbatim>\<open>_get_unhandled_fields\<close>: the loop over the source fields, in their order.\<close>

fun get_unhandled_fields ::
  "field_descriptor list \<Rightarrow> (string \<rightharpoonup> field_descriptor) \<Rightarrow> string list
     \<Rightarrow> error + string list" where
  "get_unhandled_fields [] dest_proto_fields_by_name field_names_to_ignore = Inr []"
| "get_unhandled_fields (field # src_proto_fields) dest_proto_fields_by_name
       field_names_to_ignore =
     (if name field \<in> set field_names_to_ignore
      then get_unhandled_fields src_proto_fields dest_proto_fields_by_name
             field_names_to_ignore
      else (case is_src_field_auto_convertible field dest_proto_fields_by_name of
              Inl e \<Rightarrow> Inl e
            | Inr ok \<Rightarrow>
                (case get_unhandled_fields src_proto_fields dest_proto_fields_by_name
                        field_names_to_ignore of
                   Inl e \<Rightarrow> Inl e
                 | Inr unhandled_field_names \<Rightarrow>
                     Inr (if \<not> ok then name field # unhandled_field_names
                          else unhandled_field_names))))"

section \<open>The validation of one-of groups\<close>

text \<open>
  \<^verbatim>\<open>_get_fields_to_oneof_dict\<close>: from each member field's name to the name of its group;
  a later assignment to the same key replaces the earlier one.
\<close>

definition get_fields_to_oneof_dict :: "(string \<times> string list) list \<Rightarrow> (string \<rightharpoonup> string)" where
  "get_fields_to_oneof_dict oneof_by_name =
     fold (\<lambda>(oneof_name, oneof_fields) result_dict.
             fold (\<lambda>field r. r(field \<mapsto> oneof_name)) oneof_fields result_dict)
          oneof_by_name Map.empty"

text \<open>The inner loop of \<^verbatim>\<open>_validate_oneof_field_multi_mapping\<close>: the set \<^verbatim>\<open>mapped_field\<close>.\<close>

fun mapped_field ::
  "(string \<rightharpoonup> string) \<Rightarrow> string set \<Rightarrow> string set \<Rightarrow> string list \<Rightarrow> string set" where
  "mapped_field dest_oneof_dict dest_field_names ignored_fields_set [] = {}"
| "mapped_field dest_oneof_dict dest_field_names ignored_fields_set
       (src_field_name # rest) =
     (let mapped = mapped_field dest_oneof_dict dest_field_names ignored_fields_set rest
      in if src_field_name \<in> ignored_fields_set then mapped
         else (case dest_oneof_dict src_field_name of
                 Some dest_oneof_name \<Rightarrow> insert dest_oneof_name mapped
               | None \<Rightarrow>
                   if src_field_name \<in> dest_field_names
                   then insert src_field_name mapped else mapped))"

text \<open>The outer loop: the first group with more than one mapped name raises.\<close>

fun validate_oneofs ::
  "string \<Rightarrow> (string \<rightharpoonup> string) \<Rightarrow> string set \<Rightarrow> string set
     \<Rightarrow> (string \<times> string list) list \<Rightarrow> error + unit" where
  "validate_oneofs src_name dest_oneof_dict dest_field_names ignored_fields_set [] = Inr ()"
| "validate_oneofs src_name dest_oneof_dict dest_field_names ignored_fields_set
       ((src_oneof_name, src_oneof_fields) # rest) =
     (if 1 < card (mapped_field dest_oneof_dict dest_field_names ignored_fields_set
                     src_oneof_fields)
      then Inl (NotImplementedError_oneof src_oneof_name src_name)
      else validate_oneofs src_name dest_oneof_dict dest_field_names ignored_fields_set
             rest)"

definition validate_oneof_field_multi_mapping ::
  "descriptor \<Rightarrow> descriptor \<Rightarrow> string list \<Rightarrow> error + unit" where
  "validate_oneof_field_multi_mapping src_pb dest_pb ignored_fields =
     validate_oneofs (dname src_pb) (get_fields_to_oneof_dict (oneofs dest_pb))
       (name ` set (fields dest_pb)) (set ignored_fields) (oneofs src_pb)"

text \<open>The message of the exception raised at the end of the validation.\<close>

definition oneof_error_message :: "string \<Rightarrow> string \<Rightarrow> string" where
  "oneof_error_message src_oneof_name src_name =
     ''Oneof field '' @ src_oneof_name @ '' in proto '' @ src_name
       @ '' maps to more than one field, all fields in the oneof must be explicitly handled or ignored.''"

section \<open>Message instances\<close>

text \<open>
  An instance holds its descriptor and the fields that are set, by name. A field holds a
  scalar, a message, the elements of a repeated field or the entries of a map field.
\<close>

datatype scalar = IntVal int | BoolVal bool | StrVal string | BytesVal string

datatype message =
  Message (DESCRIPTOR: descriptor) (set_fields: "(string \<times> field_value) list")
and field_value =
    Scalar scalar
  | Msg message
  | RepeatedField "field_value list"
  | MapField "(scalar \<times> field_value) list"

section \<open>The converter class\<close>

text \<open>
  A user function takes the source and the destination instance and writes into the
  destination; it may raise. A class attribute is callable or not and carries
  \<^verbatim>\<open>convert_field_names\<close> when \<^verbatim>\<open>convert_field\<close> decorated it. A class is its attributes
  by name, in the order the class body defines them.
\<close>

type_synonym user_func = "message \<Rightarrow> message \<Rightarrow> string + message"

datatype attribute =
  Attribute (callable: bool) (convert_field_names: "string list option") (func: user_func)

type_synonym py_class = "(string \<times> attribute) list"

text \<open>\<^verbatim>\<open>dir\<close> lists the attribute names of a class in ascending order.\<close>

definition dir_class :: "py_class \<Rightarrow> string list" where
  "dir_class cls = sort (remdups (map fst cls))"

datatype ProtoConverter =
  ProtoConverter (pb_class_from: descriptor) (pb_class_to: descriptor)
    (field_names_to_ignore: "string list") (function_convert_field_names: "string list")
    (convert_functions: "(string \<times> user_func) list") (unconverted_fields: "string list")

text \<open>
  The first loop of \<^verbatim>\<open>_assert_all_fields_are_handled\<close>, over \<^verbatim>\<open>dir(self.__class__)\<close>: it
  returns \<^verbatim>\<open>_convert_functions\<close> (each function with the attribute name it was found
  under) and \<^verbatim>\<open>_function_convert_field_names\<close>.
\<close>

fun register_functions ::
  "py_class \<Rightarrow> string list \<Rightarrow> (string \<times> user_func) list \<times> string list" where
  "register_functions cls [] = ([], [])"
| "register_functions cls (entry # entries) =
     (let (functions, names) = register_functions cls entries
      in case map_of cls entry of
           None \<Rightarrow> (functions, names)
         | Some function \<Rightarrow>
             if \<not> callable function then (functions, names)
             else (case convert_field_names function of
                     None \<Rightarrow> (functions, names)
                   | Some field_names \<Rightarrow>
                       ((entry, func function) # functions, field_names @ names)))"

text \<open>
  \<^verbatim>\<open>__init__\<close> with \<^verbatim>\<open>_assert_all_fields_are_handled\<close>; an absent ignore list is the empty
  list.
\<close>

definition ProtoConverter_init ::
  "py_class \<Rightarrow> descriptor \<Rightarrow> descriptor \<Rightarrow> string list \<Rightarrow> error + ProtoConverter" where
  "ProtoConverter_init cls from to ignore =
     (let (functions, names) = register_functions cls (dir_class cls)
      in case get_unhandled_fields (fields from) (fields_by_name to) ignore of
           Inl e \<Rightarrow> Inl e
         | Inr unconverted \<Rightarrow>
        (case (if oneofs from \<noteq> []
               then validate_oneof_field_multi_mapping from to ignore else Inr ()) of
           Inl e \<Rightarrow> Inl e
         | Inr _ \<Rightarrow>
        (case (if oneofs to \<noteq> []
               then validate_oneof_field_multi_mapping to from ignore else Inr ()) of
           Inl e \<Rightarrow> Inl e
         | Inr _ \<Rightarrow>
             if set unconverted - set names \<noteq> {}
             then Inl (NotImplementedError_fields (set unconverted - set names))
             else Inr (ProtoConverter from to ignore names functions unconverted))))"

section \<open>The library calls of the conversion\<close>

text \<open>
  What \<^verbatim>\<open>convert\<close> uses of the reflection library and is not part of the module: the
  symbol database's lookup of a descriptor by full name, the wire encoding of a message
  and its decoding into an instance of a given descriptor (\<open>None\<close> when the bytes do not
  decode).
\<close>

datatype library =
  Library (FindMessageTypeByName: "string \<Rightarrow> descriptor option")
    (SerializeToString: "message \<Rightarrow> string")
    (ParseFromString: "descriptor \<Rightarrow> string \<Rightarrow> message option")

text \<open>Assignment to a key of a dict: the entry is replaced where the key stands, or added.\<close>

fun assign :: "'k \<Rightarrow> 'v \<Rightarrow> ('k \<times> 'v) list \<Rightarrow> ('k \<times> 'v) list" where
  "assign k v [] = [(k, v)]"
| "assign k v ((k', v') # rest) =
     (if k' = k then (k, v) # rest else (k', v') # assign k v rest)"

definition setattr :: "message \<Rightarrow> string \<Rightarrow> field_value \<Rightarrow> message" where
  "setattr m n v = Message (DESCRIPTOR m) (assign n v (set_fields m))"

text \<open>
  \<^verbatim>\<open>ListFields\<close>: the fields of the descriptor that are set in the instance, each with its
  value; a repeated or map field with no element is not listed.
\<close>

fun is_populated :: "field_value \<Rightarrow> bool" where
  "is_populated (RepeatedField []) = False"
| "is_populated (MapField []) = False"
| "is_populated _ = True"

definition ListFields :: "message \<Rightarrow> (field_descriptor \<times> field_value) list" where
  "ListFields m =
     List.map_filter
       (\<lambda>fd. case map_of (set_fields m) (name fd) of
                None \<Rightarrow> None
              | Some v \<Rightarrow> if is_populated v then Some (fd, v) else None)
       (fields (DESCRIPTOR m))"

text \<open>
  The any-wrapper message of the library: \<^verbatim>\<open>TypeName\<close> is the part of \<^verbatim>\<open>type_url\<close> after
  the last slash, \<^verbatim>\<open>Is\<close> compares it with a descriptor's full name, \<^verbatim>\<open>Pack\<close> stores the
  default prefix with the full name and the encoding of the message, \<^verbatim>\<open>Unpack\<close> decodes
  into the given instance when \<^verbatim>\<open>Is\<close> holds and leaves it as it is otherwise.
\<close>

definition type_url :: "message \<Rightarrow> string" where
  "type_url field =
     (case map_of (set_fields field) ''type_url'' of
        Some (Scalar (StrVal s)) \<Rightarrow> s
      | _ \<Rightarrow> [])"

definition any_value :: "message \<Rightarrow> string" where
  "any_value field =
     (case map_of (set_fields field) ''value'' of
        Some (Scalar (BytesVal b)) \<Rightarrow> b
      | _ \<Rightarrow> [])"

definition TypeName :: "message \<Rightarrow> string" where
  "TypeName field = rev (takeWhile (\<lambda>c. c \<noteq> CHR ''/'') (rev (type_url field)))"

definition Is :: "message \<Rightarrow> descriptor \<Rightarrow> bool" where
  "Is field d = (CHR ''/'' \<in> set (type_url field) \<and> TypeName field = full_name d)"

definition Pack :: "library \<Rightarrow> message \<Rightarrow> message" where
  "Pack lib msg =
     Message Any_DESCRIPTOR
       ((''type_url'', Scalar (StrVal (''type.googleapis.com/'' @ full_name (DESCRIPTOR msg))))
        # (if SerializeToString lib msg = [] then []
           else [(''value'', Scalar (BytesVal (SerializeToString lib msg)))]))"

definition Unpack :: "library \<Rightarrow> message \<Rightarrow> message \<Rightarrow> error + message" where
  "Unpack lib field msg =
     (if \<not> Is field (DESCRIPTOR msg) then Inr msg
      else (case ParseFromString lib (DESCRIPTOR msg) (any_value field) of
              None \<Rightarrow> Inl DecodeError
            | Some parsed \<Rightarrow> Inr parsed))"

section \<open>The conversion\<close>

text \<open>
  Lines 170 to 176 of \<^verbatim>\<open>_auto_convert\<close> for one element: the descriptor found by the type
  name, a new instance of it, and the element unpacked into that instance.
\<close>

definition unpack_new :: "library \<Rightarrow> message \<Rightarrow> error + message" where
  "unpack_new lib field =
     (case FindMessageTypeByName lib (TypeName field) of
        None \<Rightarrow> Inl (KeyError (TypeName field))
      | Some proto_descriptor \<Rightarrow> Unpack lib field (Message proto_descriptor []))"

text \<open>The loop of lines 171 to 177: each unpacked object is packed into a new element.\<close>

fun convert_any_elements :: "library \<Rightarrow> field_value list \<Rightarrow> error + field_value list" where
  "convert_any_elements lib [] = Inr []"
| "convert_any_elements lib (Msg field # rest) =
     (case unpack_new lib field of
        Inl e \<Rightarrow> Inl e
      | Inr proto_object \<Rightarrow>
          (case convert_any_elements lib rest of
             Inl e \<Rightarrow> Inl e
           | Inr added \<Rightarrow> Inr (Msg (Pack lib proto_object) # added)))"
| "convert_any_elements lib (_ # rest) = Inl (AttributeError ''TypeName'')"

text \<open>The loop of lines 180 to 183: each element is packed into a new any-wrapper.\<close>

fun pack_elements :: "library \<Rightarrow> field_value list \<Rightarrow> error + field_value list" where
  "pack_elements lib [] = Inr []"
| "pack_elements lib (Msg field # rest) =
     (case pack_elements lib rest of
        Inl e \<Rightarrow> Inl e
      | Inr added \<Rightarrow> Inr (Msg (Pack lib field) # added))"
| "pack_elements lib (_ # rest) = Inl (AttributeError ''DESCRIPTOR'')"

text \<open>The loop of lines 157 and 158: each value is packed under its key.\<close>

fun pack_entries ::
  "library \<Rightarrow> (scalar \<times> field_value) list \<Rightarrow> (scalar \<times> field_value) list
     \<Rightarrow> error + (scalar \<times> field_value) list" where
  "pack_entries lib dest_entries [] = Inr dest_entries"
| "pack_entries lib dest_entries ((key, Msg v) # rest) =
     pack_entries lib (assign key (Msg (Pack lib v)) dest_entries) rest"
| "pack_entries lib dest_entries (_ # rest) = Inl (AttributeError ''DESCRIPTOR'')"

text \<open>\<^verbatim>\<open>MergeFrom\<close> on a map: each entry of the source is stored under its key.\<close>

definition merge_entries ::
  "(scalar \<times> field_value) list \<Rightarrow> (scalar \<times> field_value) list
     \<Rightarrow> (scalar \<times> field_value) list" where
  "merge_entries dest_entries src_entries =
     fold (\<lambda>(key, v) entries. assign key v entries) src_entries dest_entries"

text \<open>
  The value \<^verbatim>\<open>getattr(dest_proto, name)\<close> holds: the elements or entries already in the
  destination, none when the field is not set.
\<close>

fun elements_of :: "field_value option \<Rightarrow> field_value list" where
  "elements_of (Some (RepeatedField xs)) = xs"
| "elements_of _ = []"

fun entries_of :: "field_value option \<Rightarrow> (scalar \<times> field_value) list" where
  "entries_of (Some (MapField es)) = es"
| "entries_of _ = []"

text \<open>
  The body of the loop of \<^verbatim>\<open>_auto_convert\<close> from the map case on: the new value of the
  destination's field. A source value of another shape than its descriptor declares has
  not the attribute the branch uses. The last branch is \<^verbatim>\<open>setattr\<close>, line 197: the library
  refuses the assignment to a repeated field and to a composite field, of message or of
  group type, of the destination.
\<close>

definition convert_field ::
  "library \<Rightarrow> field_descriptor \<Rightarrow> field_descriptor \<Rightarrow> field_value option \<Rightarrow> field_value
     \<Rightarrow> error + field_value" where
  "convert_field lib src_field_descriptor dest_field_descriptor dest_field src_field =
     (case is_map_field src_field_descriptor of
        Inl e \<Rightarrow> Inl e
      | Inr True \<Rightarrow>
          (case message_type src_field_descriptor of
             None \<Rightarrow> Inl (AttributeError ''fields_by_name'')
           | Some src_m \<Rightarrow>
          (case fields_by_name src_m ''value'' of
             None \<Rightarrow> Inl (KeyError ''value'')
           | Some src_map_value_field_descriptor \<Rightarrow>
          (case message_type dest_field_descriptor of
             None \<Rightarrow> Inl (AttributeError ''fields_by_name'')
           | Some dest_m \<Rightarrow>
          (case fields_by_name dest_m ''value'' of
             None \<Rightarrow> Inl (KeyError ''value'')
           | Some dest_map_value_field_descriptor \<Rightarrow>
          (case src_field of
             MapField src_entries \<Rightarrow>
               if is_any_field dest_map_value_field_descriptor
                  \<and> \<not> is_any_field src_map_value_field_descriptor
               then map_sum id MapField
                      (pack_entries lib (entries_of dest_field) src_entries)
               else Inr (MapField (merge_entries (entries_of dest_field) src_entries))
           | _ \<Rightarrow> Inl (AttributeError ''items''))))))
      | Inr False \<Rightarrow>
          if label src_field_descriptor = LABEL_REPEATED then
            (case src_field of
               RepeatedField src_elements \<Rightarrow>
                 if is_any_field src_field_descriptor
                 then map_sum id (\<lambda>added. RepeatedField (elements_of dest_field @ added))
                        (convert_any_elements lib src_elements)
                 else if is_any_field dest_field_descriptor
                 then map_sum id (\<lambda>added. RepeatedField (elements_of dest_field @ added))
                        (pack_elements lib src_elements)
                 else Inr (RepeatedField (elements_of dest_field @ src_elements))
             | _ \<Rightarrow> Inl (AttributeError ''__iter__''))
          else if ftype src_field_descriptor = TYPE_MESSAGE then
            (case src_field of
               Msg src_message \<Rightarrow>
                 if is_any_field dest_field_descriptor
                    \<and> \<not> is_any_field src_field_descriptor
                 then Inr (Msg (Pack lib src_message))
                 else Inr (Msg src_message)
             | _ \<Rightarrow> Inl (AttributeError ''DESCRIPTOR''))
          else if label dest_field_descriptor = LABEL_REPEATED
                  \<or> ftype dest_field_descriptor = TYPE_MESSAGE
                  \<or> ftype dest_field_descriptor = TYPE_GROUP
          then Inl (AttributeError ''Assignment not allowed'')
          else Inr src_field)"

text \<open>The loop of \<^verbatim>\<open>_auto_convert\<close> over the listed fields of the source.\<close>

fun auto_convert_fields ::
  "library \<Rightarrow> ProtoConverter \<Rightarrow> (field_descriptor \<times> field_value) list \<Rightarrow> message
     \<Rightarrow> error + message" where
  "auto_convert_fields lib self [] dest_proto = Inr dest_proto"
| "auto_convert_fields lib self ((src_field_descriptor, src_field) # rest) dest_proto =
     (if name src_field_descriptor \<in> set (field_names_to_ignore self)
         \<or> name src_field_descriptor \<in> set (unconverted_fields self)
      then auto_convert_fields lib self rest dest_proto
      else (case fields_by_name (DESCRIPTOR dest_proto) (name src_field_descriptor) of
              None \<Rightarrow> Inl (KeyError (name src_field_descriptor))
            | Some dest_field_descriptor \<Rightarrow>
                (case convert_field lib src_field_descriptor dest_field_descriptor
                        (map_of (set_fields dest_proto) (name src_field_descriptor))
                        src_field of
                   Inl e \<Rightarrow> Inl e
                 | Inr v \<Rightarrow>
                     auto_convert_fields lib self rest
                       (setattr dest_proto (name src_field_descriptor) v))))"

definition auto_convert :: "library \<Rightarrow> ProtoConverter \<Rightarrow> message \<Rightarrow> message \<Rightarrow> error + message" where
  "auto_convert lib self src_proto dest_proto =
     auto_convert_fields lib self (ListFields src_proto) dest_proto"

text \<open>
  The loop over \<^verbatim>\<open>_convert_functions\<close>: the names of the functions called, in the order of
  the calls, and the destination instance or the exception of the function that raised.
\<close>

fun call_user_funcs ::
  "(string \<times> user_func) list \<Rightarrow> message \<Rightarrow> message \<Rightarrow> string list \<times> (error + message)" where
  "call_user_funcs [] src_proto dest_proto = ([], Inr dest_proto)"
| "call_user_funcs ((entry, user_func) # rest) src_proto dest_proto =
     (case user_func src_proto dest_proto of
        Inl raised \<Rightarrow> ([entry], Inl (UserError raised))
      | Inr dest_proto' \<Rightarrow>
          (let (called, outcome) = call_user_funcs rest src_proto dest_proto'
           in (entry # called, outcome)))"

text \<open>
  \<^verbatim>\<open>convert\<close>: the user functions called, in order, and the returned instance or the
  exception raised.
\<close>

definition convert ::
  "library \<Rightarrow> ProtoConverter \<Rightarrow> message \<Rightarrow> string list \<times> (error + message)" where
  "convert lib self src_proto =
     (let src_type = full_name (DESCRIPTOR src_proto);
          expected_src_type = full_name (pb_class_from self)
      in if src_type \<noteq> expected_src_type
         then ([], Inl (TypeError src_type expected_src_type))
         else (case auto_convert lib self src_proto (Message (pb_class_to self) []) of
                 Inl e \<Rightarrow> ([], Inl e)
               | Inr dest_proto \<Rightarrow>
                   call_user_funcs (convert_functions self) src_proto dest_proto))"

text \<open>The message of the exception \<^verbatim>\<open>convert\<close> raises on another source type.\<close>

definition type_error_message :: "string \<Rightarrow> string \<Rightarrow> string" where
  "type_error_message src_type expected_src_type =
     ''Provided src_proto type ['' @ src_type @ ''] doesn'' @ [CHR 0x27]
       @ ''t match the converter'' @ [CHR 0x27] @ ''s src_proto type ['' @ expected_src_type
       @ ''].''"

section \<open>Registration and concrete inputs\<close>

text \<open>
  An attribute name of the class under which the first loop of
  \<^verbatim>\<open>_assert_all_fields_are_handled\<close> finds a user function: a callable that carries
  \<^verbatim>\<open>convert_field_names\<close>.
\<close>

definition is_handler :: "py_class \<Rightarrow> string \<Rightarrow> bool" where
  "is_handler cls entry =
     (case map_of cls entry of
        None \<Rightarrow> False
      | Some function \<Rightarrow> callable function \<and> convert_field_names function \<noteq> None)"

text \<open>
  The order in which the class body registers its user functions with \<^verbatim>\<open>convert_field\<close>:
  the order of their definitions.
\<close>

definition registration_order :: "py_class \<Rightarrow> string list" where
  "registration_order cls = filter (is_handler cls) (map fst cls)"

text \<open>
  A message type with one string field; a library in which only it is registered and the
  encoding of a Topping is its name; a user function that writes the name.
\<close>

definition Topping :: descriptor where
  "Topping = Descriptor 1 ''Topping'' ''example.Topping''
     [FieldDescriptor ''name'' LABEL_OPTIONAL TYPE_STRING None] [] False False"

definition toy_library :: library where
  "toy_library = Library
     (\<lambda>n. if n = ''example.Topping'' then Some Topping else None)
     (\<lambda>m. case map_of (set_fields m) ''name'' of Some (Scalar (StrVal s)) \<Rightarrow> s | _ \<Rightarrow> [])
     (\<lambda>d b. Some (Message d (if b = [] then [] else [(''name'', Scalar (StrVal b))])))"

definition set_name :: "string \<Rightarrow> user_func" where
  "set_name s src_proto dest_proto = Inr (setattr dest_proto ''name'' (Scalar (StrVal s)))"

text \<open>A converter class whose body defines \<open>b_handler\<close> before \<open>a_handler\<close>.\<close>

definition two_handlers :: py_class where
  "two_handlers =
     [(''b_handler'', Attribute True (Some [''name'']) (set_name ''b'')),
      (''a_handler'', Attribute True (Some []) (set_name ''a''))]"

text \<open>A converter class whose first user function, in the order of the names, raises.\<close>

definition refuse :: user_func where
  "refuse src_proto dest_proto = Inl ''refused''"

definition refusing_handlers :: py_class where
  "refusing_handlers =
     [(''a_handler'', Attribute True (Some []) refuse),
      (''b_handler'', Attribute True (Some [''name'']) (set_name ''b''))]"

section \<open>Notions of the claims about construction\<close>

text \<open>
  The destination target of a member field of a one-of group: the name of the
  destination's group when the member's name belongs to one, and otherwise the member's
  own name when it is the name of a destination field.
\<close>

definition destination_target :: "descriptor \<Rightarrow> string \<Rightarrow> string option" where
  "destination_target dest_pb member =
     (case get_fields_to_oneof_dict (oneofs dest_pb) member of
        Some dest_oneof_name \<Rightarrow> Some dest_oneof_name
      | None \<Rightarrow> if member \<in> name ` set (fields dest_pb) then Some member else None)"

text \<open>A group fans out: its members that are not ignored have more than one target.\<close>

definition fans_out :: "descriptor \<Rightarrow> string list \<Rightarrow> string list \<Rightarrow> bool" where
  "fans_out dest_pb ignored members =
     (1 < card {target. \<exists>member \<in> set members.
                  member \<notin> set ignored \<and> destination_target dest_pb member = Some target})"

text \<open>
  The groups in the order the constructor validates them, each with its owning schema and
  the schema it is checked against: the source's groups, then the destination's.
\<close>

definition validation_order ::
  "descriptor \<Rightarrow> descriptor \<Rightarrow> (descriptor \<times> descriptor \<times> string \<times> string list) list" where
  "validation_order from to =
     map (\<lambda>(g, members). (from, to, g, members)) (oneofs from)
     @ map (\<lambda>(g, members). (to, from, g, members)) (oneofs to)"

definition first_fanning ::
  "descriptor \<Rightarrow> descriptor \<Rightarrow> string list
     \<Rightarrow> (descriptor \<times> descriptor \<times> string \<times> string list) option" where
  "first_fanning from to ignore =
     find (\<lambda>(owner, other, g, members). fans_out other ignore members)
       (validation_order from to)"

text \<open>The field names the registered user functions claim.\<close>

definition claimed_field_names :: "py_class \<Rightarrow> string set" where
  "claimed_field_names cls = set (snd (register_functions cls (dir_class cls)))"

text \<open>
  The offending fields: the source fields that are not ignored, not auto-convertible and
  not claimed by a registered user function.
\<close>

definition unhandled_names ::
  "py_class \<Rightarrow> descriptor \<Rightarrow> descriptor \<Rightarrow> string list \<Rightarrow> string set" where
  "unhandled_names cls from to ignore =
     {name f |f. f \<in> set (fields from) \<and> name f \<notin> set ignore
        \<and> is_src_field_auto_convertible f (fields_by_name to) \<noteq> Inr True
        \<and> name f \<notin> claimed_field_names cls}"

text \<open>The auto-convertible source fields, by name.\<close>

definition auto_convertible_names :: "descriptor \<Rightarrow> descriptor \<Rightarrow> string set" where
  "auto_convertible_names from to =
     {name f |f. f \<in> set (fields from)
        \<and> is_src_field_auto_convertible f (fields_by_name to) = Inr True}"

text \<open>Schemas used as concrete inputs of the theorems about construction.\<close>

definition Seller :: descriptor where
  "Seller = Descriptor 2 ''Seller'' ''example.Seller''
     [FieldDescriptor ''name'' LABEL_OPTIONAL TYPE_STRING None,
      FieldDescriptor ''seller'' LABEL_OPTIONAL TYPE_STRING None] [] False False"

definition Choice :: descriptor where
  "Choice = Descriptor 3 ''Choice'' ''example.Choice''
     [FieldDescriptor ''a'' LABEL_OPTIONAL TYPE_STRING None,
      FieldDescriptor ''b'' LABEL_OPTIONAL TYPE_STRING None,
      FieldDescriptor ''seller'' LABEL_OPTIONAL TYPE_STRING None]
     [(''choice'', [''a'', ''b''])] False False"

definition Plain :: descriptor where
  "Plain = Descriptor 4 ''Plain'' ''example.Plain''
     [FieldDescriptor ''a'' LABEL_OPTIONAL TYPE_STRING None,
      FieldDescriptor ''b'' LABEL_OPTIONAL TYPE_STRING None,
      FieldDescriptor ''c'' LABEL_OPTIONAL TYPE_STRING None,
      FieldDescriptor ''d'' LABEL_OPTIONAL TYPE_STRING None] [] False False"

definition TwoGroups :: descriptor where
  "TwoGroups = Descriptor 5 ''TwoGroups'' ''example.TwoGroups''
     [FieldDescriptor ''a'' LABEL_OPTIONAL TYPE_STRING None,
      FieldDescriptor ''b'' LABEL_OPTIONAL TYPE_STRING None,
      FieldDescriptor ''c'' LABEL_OPTIONAL TYPE_STRING None,
      FieldDescriptor ''d'' LABEL_OPTIONAL TYPE_STRING None]
     [(''g1'', [''a'', ''b'']), (''g2'', [''c'', ''d''])] False False"

text \<open>A converter class whose user function also claims a name that is no source field.\<close>

definition ghost_handlers :: py_class where
  "ghost_handlers =
     [(''b_handler'', Attribute True (Some [''name'', ''ghost'']) (set_name ''b'')),
      (''a_handler'', Attribute True (Some []) (set_name ''a''))]"

section \<open>Notions of the claims about the conversion\<close>

text \<open>
  A schema with a repeated field of any-wrappers, a Topping, and a basket whose one item is
  that Topping packed by the library.
\<close>

definition Basket :: descriptor where
  "Basket = Descriptor 6 ''Basket'' ''example.Basket''
     [FieldDescriptor ''items'' LABEL_REPEATED TYPE_MESSAGE (Some Any_DESCRIPTOR)]
     [] False False"

definition jelly :: message where
  "jelly = Message Topping [(''name'', Scalar (StrVal ''jelly''))]"

definition basket_of_jelly :: message where
  "basket_of_jelly = Message Basket [(''items'', RepeatedField [Msg (Pack toy_library jelly)])]"

text \<open>
  A value of the shape its field's descriptor declares: a map field holds entries under
  distinct keys, a repeated field holds elements, a singular field of message kind holds a
  message, and a singular field of scalar or enum kind holds a scalar.
\<close>

definition conforms :: "field_descriptor \<Rightarrow> field_value \<Rightarrow> bool" where
  "conforms fd v =
     (if is_map_field fd = Inr True
      then (case v of MapField entries \<Rightarrow> distinct (map fst entries) | _ \<Rightarrow> False)
      else if label fd = LABEL_REPEATED
      then (case v of RepeatedField elements \<Rightarrow> True | _ \<Rightarrow> False)
      else if field_kind (ftype fd) = KIND_MESSAGE
      then (case v of Msg m \<Rightarrow> True | _ \<Rightarrow> False)
      else (case v of Scalar s \<Rightarrow> True | _ \<Rightarrow> False))"

text \<open>
  An instance the library can carry in an any-wrapper: its type's full name holds no
  slash and is registered for its descriptor, and the library decodes the encoding of the
  instance back to the instance.
\<close>

definition round_trips :: "library \<Rightarrow> message \<Rightarrow> bool" where
  "round_trips lib obj =
     (CHR ''/'' \<notin> set (full_name (DESCRIPTOR obj))
      \<and> FindMessageTypeByName lib (full_name (DESCRIPTOR obj)) = Some (DESCRIPTOR obj)
      \<and> ParseFromString lib (DESCRIPTOR obj) (SerializeToString lib obj) = Some obj)"

text \<open>
  Deep equality of two instances: the same descriptor and the same listed fields with the
  same values, field by field; two any-wrappers are equal when their type URLs and their
  bytes are.
\<close>

definition deep_equal :: "message \<Rightarrow> message \<Rightarrow> bool" where
  "deep_equal a b = (DESCRIPTOR a = DESCRIPTOR b \<and> ListFields a = ListFields b)"

text \<open>
  A basket whose one item is an any-wrapper in which nothing is packed; a basket whose one
  item holds a Topping under a type URL with another prefix than the one \<^verbatim>\<open>Pack\<close> writes;
  a schema with a singular field of group type, and an instance of it in which the group
  is set.
\<close>

definition basket_of_nothing :: message where
  "basket_of_nothing = Message Basket [(''items'', RepeatedField [Msg (Message Any_DESCRIPTOR [])])]"

definition basket_from_elsewhere :: message where
  "basket_from_elsewhere =
     Message Basket
       [(''items'', RepeatedField
          [Msg (Message Any_DESCRIPTOR
                  [(''type_url'', Scalar (StrVal ''example.com/example.Topping'')),
                   (''value'', Scalar (BytesVal ''jelly''))])])]"

definition Crate :: descriptor where
  "Crate = Descriptor 7 ''Crate'' ''example.Crate''
     [FieldDescriptor ''lid'' LABEL_OPTIONAL TYPE_GROUP (Some Topping)] [] False False"

definition crate_of_jelly :: message where
  "crate_of_jelly = Message Crate [(''lid'', Msg jelly)]"

section \<open>Theorems: the compatibility analysis\<close>





text \<open>
  C8, as the code has it. A source field of scalar or enum kind with a destination field
  of its name is convertible exactly when the two declared labels (optional, required,
  repeated) are equal and the two declared types are equal: the code compares the
  \<^verbatim>\<open>label\<close> attributes, of which two are singular, and the \<^verbatim>\<open>type\<close> attributes, of which
  fifteen are of scalar kind, not the repetition labels and the kinds.
\<close>

theorem C8_scalar_enum_field:
  assumes "field_kind (ftype src_field) = KIND_SCALAR
           \<or> field_kind (ftype src_field) = KIND_ENUM"
    and "dest_proto_fields_by_name (name src_field) = Some dest_field"
  shows "is_src_field_auto_convertible src_field dest_proto_fields_by_name =
     Inr (label dest_field = label src_field \<and> ftype dest_field = ftype src_field)"
proof -
  from assms(1) have nm: "ftype src_field \<noteq> TYPE_MESSAGE"
    by (cases "ftype src_field") simp_all
  then have "is_map_field src_field = Inr False"
    by (simp add: is_map_field_def)
  with assms(2) nm show ?thesis
    by (subst is_src_field_auto_convertible.simps) auto
qed

theorem C8_scalar_enum_field_witness:
  "is_src_field_auto_convertible (FieldDescriptor ''name'' LABEL_OPTIONAL TYPE_STRING None)
     [''name'' \<mapsto> FieldDescriptor ''name'' LABEL_OPTIONAL TYPE_STRING None] = Inr True"
  using C8_scalar_enum_field
    [of "FieldDescriptor ''name'' LABEL_OPTIONAL TYPE_STRING None"
        "[''name'' \<mapsto> FieldDescriptor ''name'' LABEL_OPTIONAL TYPE_STRING None]"
        "FieldDescriptor ''name'' LABEL_OPTIONAL TYPE_STRING None"]
  by simp

text \<open>
  C8 as stated fails twice. A float source field and an int32 destination field of the
  same name and label are both of scalar kind, and the analysis returns false. A required
  source field and an optional destination field of the same name and of string type are
  both singular and of scalar kind, and the analysis returns false.
\<close>

theorem C8_same_kind_other_type_counterexample:
  "(field_kind (ftype (FieldDescriptor ''price'' LABEL_OPTIONAL TYPE_FLOAT None)) = KIND_SCALAR
    \<and> [''price'' \<mapsto> FieldDescriptor ''price'' LABEL_OPTIONAL TYPE_INT32 None]
        (name (FieldDescriptor ''price'' LABEL_OPTIONAL TYPE_FLOAT None))
      = Some (FieldDescriptor ''price'' LABEL_OPTIONAL TYPE_INT32 None)
    \<and> repetition_label (label (FieldDescriptor ''price'' LABEL_OPTIONAL TYPE_INT32 None))
      = repetition_label (label (FieldDescriptor ''price'' LABEL_OPTIONAL TYPE_FLOAT None))
    \<and> field_kind (ftype (FieldDescriptor ''price'' LABEL_OPTIONAL TYPE_INT32 None))
      = field_kind (ftype (FieldDescriptor ''price'' LABEL_OPTIONAL TYPE_FLOAT None))
    \<and> is_src_field_auto_convertible (FieldDescriptor ''price'' LABEL_OPTIONAL TYPE_FLOAT None)
        [''price'' \<mapsto> FieldDescriptor ''price'' LABEL_OPTIONAL TYPE_INT32 None] = Inr False)
   \<and> (field_kind (ftype (FieldDescriptor ''name'' LABEL_REQUIRED TYPE_STRING None)) = KIND_SCALAR
    \<and> [''name'' \<mapsto> FieldDescriptor ''name'' LABEL_OPTIONAL TYPE_STRING None]
        (name (FieldDescriptor ''name'' LABEL_REQUIRED TYPE_STRING None))
      = Some (FieldDescriptor ''name'' LABEL_OPTIONAL TYPE_STRING None)
    \<and> repetition_label (label (FieldDescriptor ''name'' LABEL_OPTIONAL TYPE_STRING None))
      = repetition_label (label (FieldDescriptor ''name'' LABEL_REQUIRED TYPE_STRING None))
    \<and> field_kind (ftype (FieldDescriptor ''name'' LABEL_OPTIONAL TYPE_STRING None))
      = field_kind (ftype (FieldDescriptor ''name'' LABEL_REQUIRED TYPE_STRING None))
    \<and> is_src_field_auto_convertible (FieldDescriptor ''name'' LABEL_REQUIRED TYPE_STRING None)
        [''name'' \<mapsto> FieldDescriptor ''name'' LABEL_OPTIONAL TYPE_STRING None] = Inr False)"
  by (simp add: is_src_field_auto_convertible.simps)

section \<open>Theorems: the type check of convert\<close>

lemma convert_any_elements_no_TypeError:
  "convert_any_elements lib xs \<noteq> Inl (TypeError a e)"
  by (induction lib xs rule: convert_any_elements.induct)
     (auto simp: unpack_new_def Unpack_def split: option.splits sum.splits)

lemma pack_elements_no_TypeError: "pack_elements lib xs \<noteq> Inl (TypeError a e)"
  by (induction lib xs rule: pack_elements.induct) (auto split: sum.splits)

lemma pack_entries_no_TypeError: "pack_entries lib d xs \<noteq> Inl (TypeError a e)"
  by (induction lib d xs rule: pack_entries.induct) auto

lemma map_sum_Inl: "map_sum id f r = Inl x \<longleftrightarrow> r = Inl x"
  by (cases r) auto

lemma convert_field_no_TypeError:
  "convert_field lib sfd dfd dv sv \<noteq> Inl (TypeError a e)"
  by (auto simp: convert_field_def is_map_field_def map_sum_Inl
        convert_any_elements_no_TypeError pack_elements_no_TypeError pack_entries_no_TypeError
      split: sum.splits option.splits field_value.splits bool.splits if_splits)

lemma auto_convert_fields_no_TypeError:
  "auto_convert_fields lib self xs dest \<noteq> Inl (TypeError a e)"
  by (induction lib self xs dest rule: auto_convert_fields.induct)
     (auto simp: convert_field_no_TypeError split: option.splits sum.splits)

lemma call_user_funcs_no_TypeError:
  "snd (call_user_funcs fs src dest) \<noteq> Inl (TypeError a e)"
  by (induction fs src dest rule: call_user_funcs.induct)
     (auto split: sum.splits prod.splits)

text \<open>
  C7. \<^verbatim>\<open>convert\<close> raises its type error exactly when the full name of the instance's type
  differs from the full name of the configured source type; the error carries both names
  and its message contains them; when the names are equal, the conversion proceeds with
  the automatic copy and the user functions.
\<close>

theorem C7_type_mismatch:
  "(snd (convert lib self src_proto) = Inl (TypeError a e)
      \<longleftrightarrow> a = full_name (DESCRIPTOR src_proto) \<and> e = full_name (pb_class_from self)
          \<and> a \<noteq> e)
   \<and> (\<exists>pre mid post. type_error_message a e = pre @ a @ mid @ e @ post)
   \<and> (full_name (DESCRIPTOR src_proto) = full_name (pb_class_from self) \<longrightarrow>
        convert lib self src_proto =
          (case auto_convert lib self src_proto (Message (pb_class_to self) []) of
             Inl err \<Rightarrow> ([], Inl err)
           | Inr dest_proto \<Rightarrow>
               call_user_funcs (convert_functions self) src_proto dest_proto))"
proof (intro conjI)
  show "snd (convert lib self src_proto) = Inl (TypeError a e)
      \<longleftrightarrow> a = full_name (DESCRIPTOR src_proto) \<and> e = full_name (pb_class_from self)
          \<and> a \<noteq> e"
    using auto_convert_fields_no_TypeError call_user_funcs_no_TypeError
    by (auto simp: convert_def Let_def auto_convert_def split: sum.splits)
  show "\<exists>pre mid post. type_error_message a e = pre @ a @ mid @ e @ post"
    unfolding type_error_message_def by (metis append.assoc)
  show "full_name (DESCRIPTOR src_proto) = full_name (pb_class_from self) \<longrightarrow>
        convert lib self src_proto =
          (case auto_convert lib self src_proto (Message (pb_class_to self) []) of
             Inl err \<Rightarrow> ([], Inl err)
           | Inr dest_proto \<Rightarrow>
               call_user_funcs (convert_functions self) src_proto dest_proto)"
    by (simp add: convert_def Let_def)
qed

theorem C7_type_mismatch_witness:
  "convert toy_library (ProtoConverter Topping Topping [] [] [] [])
     (Message Topping [(''name'', Scalar (StrVal ''jelly''))])
   = ([], Inr (Message Topping [(''name'', Scalar (StrVal ''jelly''))]))"
proof -
  have names: "full_name (DESCRIPTOR (Message Topping [(''name'', Scalar (StrVal ''jelly''))]))
      = full_name (pb_class_from (ProtoConverter Topping Topping [] [] [] []))"
    by simp
  have copy: "auto_convert toy_library (ProtoConverter Topping Topping [] [] [] [])
      (Message Topping [(''name'', Scalar (StrVal ''jelly''))])
      (Message (pb_class_to (ProtoConverter Topping Topping [] [] [] [])) [])
    = Inr (Message Topping [(''name'', Scalar (StrVal ''jelly''))])"
    by code_simp
  from C7_type_mismatch
         [of toy_library "ProtoConverter Topping Topping [] [] [] []"
             "Message Topping [(''name'', Scalar (StrVal ''jelly''))]" "[]" "[]"]
       names copy
  show ?thesis by simp
qed

section \<open>Theorems: the user functions\<close>

lemma register_functions_names:
  "map fst (fst (register_functions cls entries)) = filter (is_handler cls) entries"
  by (induction entries)
     (auto simp: is_handler_def split: prod.splits option.splits)

lemma init_fields:
  "ProtoConverter_init cls from to ignore = Inr self \<Longrightarrow>
     convert_functions self = fst (register_functions cls (dir_class cls))
     \<and> pb_class_from self = from \<and> pb_class_to self = to
     \<and> field_names_to_ignore self = ignore
     \<and> function_convert_field_names self = snd (register_functions cls (dir_class cls))"
  by (auto simp: ProtoConverter_init_def Let_def split: prod.splits sum.splits if_splits)

lemma call_user_funcs_all_called:
  "snd (call_user_funcs fs src dest) = Inr r \<Longrightarrow>
     fst (call_user_funcs fs src dest) = map fst fs"
  by (induction fs src dest rule: call_user_funcs.induct)
     (auto split: sum.splits prod.splits)

lemma dir_class_strict_sorted: "sorted_wrt (<) (dir_class cls)"
  by (simp add: dir_class_def strict_sorted_iff)

lemma call_user_funcs_initial_segment:
  "\<exists>rest. map fst fs = fst (call_user_funcs fs src dest) @ rest"
  by (induction fs src dest rule: call_user_funcs.induct)
     (auto split: sum.splits prod.splits)

text \<open>
  C5, as the code has it. The registered user functions, in ascending order of their
  attribute names (the order of \<^verbatim>\<open>dir\<close>), are a list without repetition. On every call of
  \<^verbatim>\<open>convert\<close> the functions called are an initial segment of that list; a function is
  called, and the call returns, only when the automatic copy has completed, and the
  functions then run on its result, whichever source fields are populated; when the call
  returns, the functions called are the whole list.
\<close>

theorem C5_user_functions_called_in_name_order:
  assumes "ProtoConverter_init cls from to ignore = Inr self"
  shows "sorted_wrt (<) (filter (is_handler cls) (dir_class cls))
     \<and> set (filter (is_handler cls) (dir_class cls)) = {entry. is_handler cls entry}
     \<and> (\<exists>rest. filter (is_handler cls) (dir_class cls)
                  = fst (convert lib self src_proto) @ rest)
     \<and> (fst (convert lib self src_proto) \<noteq> []
          \<or> (\<exists>result. snd (convert lib self src_proto) = Inr result) \<longrightarrow>
         (\<exists>dest_proto.
            auto_convert lib self src_proto (Message (pb_class_to self) []) = Inr dest_proto
            \<and> convert lib self src_proto
                = call_user_funcs (convert_functions self) src_proto dest_proto))
     \<and> ((\<exists>result. snd (convert lib self src_proto) = Inr result) \<longrightarrow>
         fst (convert lib self src_proto) = filter (is_handler cls) (dir_class cls))"
proof (intro conjI)
  from assms have registered:
    "map fst (convert_functions self) = filter (is_handler cls) (dir_class cls)"
    by (simp add: init_fields register_functions_names)
  show "sorted_wrt (<) (filter (is_handler cls) (dir_class cls))"
    by (rule sorted_wrt_filter) (rule dir_class_strict_sorted)
  show "set (filter (is_handler cls) (dir_class cls)) = {entry. is_handler cls entry}"
    by (auto simp: dir_class_def is_handler_def dest: map_of_SomeD split: option.splits
          intro: rev_image_eqI)
  show "\<exists>rest. filter (is_handler cls) (dir_class cls)
                 = fst (convert lib self src_proto) @ rest"
    using call_user_funcs_initial_segment [of "convert_functions self" src_proto]
    unfolding registered [symmetric]
    by (auto simp: convert_def Let_def split: sum.splits)
  show "fst (convert lib self src_proto) \<noteq> []
          \<or> (\<exists>result. snd (convert lib self src_proto) = Inr result) \<longrightarrow>
         (\<exists>dest_proto.
            auto_convert lib self src_proto (Message (pb_class_to self) []) = Inr dest_proto
            \<and> convert lib self src_proto
                = call_user_funcs (convert_functions self) src_proto dest_proto)"
    by (auto simp: convert_def Let_def split: sum.splits if_splits)
  show "(\<exists>result. snd (convert lib self src_proto) = Inr result) \<longrightarrow>
         fst (convert lib self src_proto) = filter (is_handler cls) (dir_class cls)"
    unfolding registered [symmetric]
    by (auto simp: convert_def Let_def call_user_funcs_all_called
          split: sum.splits if_splits)
qed

theorem C5_user_functions_called_in_name_order_witness:
  "snd (convert toy_library (ProtoConverter Topping Topping [] [''name'']
         [(''a_handler'', set_name ''a''), (''b_handler'', set_name ''b'')] [])
         (Message Topping [(''name'', Scalar (StrVal ''jelly''))]))
     = Inr (Message Topping [(''name'', Scalar (StrVal ''b''))])
   \<and> fst (convert toy_library (ProtoConverter Topping Topping [] [''name'']
         [(''a_handler'', set_name ''a''), (''b_handler'', set_name ''b'')] [])
         (Message Topping [(''name'', Scalar (StrVal ''jelly''))]))
       = filter (is_handler two_handlers) (dir_class two_handlers)
   \<and> (\<exists>dest_proto.
        auto_convert toy_library (ProtoConverter Topping Topping [] [''name'']
            [(''a_handler'', set_name ''a''), (''b_handler'', set_name ''b'')] [])
          (Message Topping [(''name'', Scalar (StrVal ''jelly''))])
          (Message (pb_class_to (ProtoConverter Topping Topping [] [''name'']
            [(''a_handler'', set_name ''a''), (''b_handler'', set_name ''b'')] [])) [])
          = Inr dest_proto
        \<and> convert toy_library (ProtoConverter Topping Topping [] [''name'']
            [(''a_handler'', set_name ''a''), (''b_handler'', set_name ''b'')] [])
            (Message Topping [(''name'', Scalar (StrVal ''jelly''))])
          = call_user_funcs (convert_functions (ProtoConverter Topping Topping [] [''name'']
            [(''a_handler'', set_name ''a''), (''b_handler'', set_name ''b'')] []))
              (Message Topping [(''name'', Scalar (StrVal ''jelly''))]) dest_proto)
   \<and> sorted_wrt (<) (filter (is_handler two_handlers) (dir_class two_handlers))
   \<and> set (filter (is_handler two_handlers) (dir_class two_handlers))
       = {entry. is_handler two_handlers entry}"
proof -
  have listed: "dir_class two_handlers = [''a_handler'', ''b_handler'']"
    by code_simp
  have registered: "register_functions two_handlers [''a_handler'', ''b_handler'']
      = ([(''a_handler'', set_name ''a''), (''b_handler'', set_name ''b'')], [''name''])"
    by (simp add: two_handlers_def)
  have unhandled: "get_unhandled_fields (fields Topping) (fields_by_name Topping) [] = Inr []"
    by code_simp
  have groups: "oneofs Topping = []"
    by (simp add: Topping_def)
  have init: "ProtoConverter_init two_handlers Topping Topping []
      = Inr (ProtoConverter Topping Topping [] [''name'']
         [(''a_handler'', set_name ''a''), (''b_handler'', set_name ''b'')] [])"
    unfolding ProtoConverter_init_def listed registered
    by (simp add: unhandled groups)
  have ok: "snd (convert toy_library (ProtoConverter Topping Topping [] [''name'']
         [(''a_handler'', set_name ''a''), (''b_handler'', set_name ''b'')] [])
         (Message Topping [(''name'', Scalar (StrVal ''jelly''))]))
      = Inr (Message Topping [(''name'', Scalar (StrVal ''b''))])"
    by code_simp
  from C5_user_functions_called_in_name_order
         [OF init, of toy_library "Message Topping [(''name'', Scalar (StrVal ''jelly''))]"]
       ok
  show ?thesis by simp
qed

text \<open>
  C5 as stated fails. The class body registers \<open>b_handler\<close> first, and \<^verbatim>\<open>convert\<close> calls
  \<open>a_handler\<close> first, so that the name \<open>b_handler\<close> writes is the one returned. The
  automatic copy of a basket whose item names no type raises, and no user function is
  called. The user function \<open>a_handler\<close> raises, and \<open>b_handler\<close> is not called.
\<close>

theorem C5_registration_order_counterexample:
  "registration_order two_handlers = [''b_handler'', ''a_handler'']
   \<and> map_sum id
       (\<lambda>self. convert toy_library self
                 (Message Topping [(''name'', Scalar (StrVal ''jelly''))]))
       (ProtoConverter_init two_handlers Topping Topping [])
     = Inr ([''a_handler'', ''b_handler''],
            Inr (Message Topping [(''name'', Scalar (StrVal ''b''))]))
   \<and> map_sum id (\<lambda>self. convert toy_library self basket_of_nothing)
       (ProtoConverter_init two_handlers Basket Basket [])
     = Inr ([], Inl (KeyError ''''))
   \<and> map_sum id
       (\<lambda>self. convert toy_library self
                 (Message Topping [(''name'', Scalar (StrVal ''jelly''))]))
       (ProtoConverter_init refusing_handlers Topping Topping [])
     = Inr ([''a_handler''], Inl (UserError ''refused''))"
  by code_simp

section \<open>Theorems: construction\<close>

lemma mapped_field_eq:
  "mapped_field (get_fields_to_oneof_dict (oneofs dest_pb)) (name ` set (fields dest_pb))
     (set ignored) members
   = {target. \<exists>member \<in> set members.
        member \<notin> set ignored \<and> destination_target dest_pb member = Some target}"
  by (induction members)
     (auto simp: destination_target_def Let_def split: option.splits if_splits)

lemma fans_out_code [code]:
  "fans_out dest_pb ignored members =
     (1 < card (mapped_field (get_fields_to_oneof_dict (oneofs dest_pb))
                  (name ` set (fields dest_pb)) (set ignored) members))"
  by (simp add: fans_out_def mapped_field_eq)

lemma validate_oneofs_find:
  "validate_oneofs n dict names ign groups =
     (case find (\<lambda>(g, members). 1 < card (mapped_field dict names ign members)) groups of
        None \<Rightarrow> Inr ()
      | Some (g, members) \<Rightarrow> Inl (NotImplementedError_oneof g n))"
  by (induction groups) auto

lemma validate_find:
  "validate_oneof_field_multi_mapping src_pb dest_pb ignored =
     (case find (\<lambda>(g, members). fans_out dest_pb ignored members) (oneofs src_pb) of
        None \<Rightarrow> Inr ()
      | Some (g, members) \<Rightarrow> Inl (NotImplementedError_oneof g (dname src_pb)))"
  by (simp add: validate_oneof_field_multi_mapping_def validate_oneofs_find fans_out_code)

lemma find_map_pair:
  "find (\<lambda>(owner, other, g, members). P other members)
        (map (\<lambda>(g, members). (a, b, g, members)) xs)
   = map_option (\<lambda>(g, members). (a, b, g, members)) (find (\<lambda>(g, members). P b members) xs)"
  by (induction xs) auto

lemma find_append_case:
  "find P (xs @ ys) = (case find P xs of None \<Rightarrow> find P ys | Some x \<Rightarrow> Some x)"
  by (induction xs) auto

text \<open>The constructor, once the analysis has returned its list.\<close>

lemma init_characterisation:
  assumes "get_unhandled_fields (fields from) (fields_by_name to) ignore = Inr unconverted"
  shows "ProtoConverter_init cls from to ignore =
     (case first_fanning from to ignore of
        Some (owner, other, g, members) \<Rightarrow> Inl (NotImplementedError_oneof g (dname owner))
      | None \<Rightarrow>
          if set unconverted - claimed_field_names cls \<noteq> {}
          then Inl (NotImplementedError_fields (set unconverted - claimed_field_names cls))
          else Inr (ProtoConverter from to ignore
                      (snd (register_functions cls (dir_class cls)))
                      (fst (register_functions cls (dir_class cls))) unconverted))"
proof -
  have v: "\<And>a b. (if oneofs a \<noteq> [] then validate_oneof_field_multi_mapping a b ignore
                   else Inr ())
      = validate_oneof_field_multi_mapping a b ignore"
    by (simp add: validate_oneof_field_multi_mapping_def)
  show ?thesis
    unfolding ProtoConverter_init_def v assms first_fanning_def validation_order_def
      find_append_case find_map_pair validate_find claimed_field_names_def
    by (auto split: prod.splits option.splits sum.splits)
qed

lemma unhandled_set:
  "get_unhandled_fields fs d ign = Inr u \<Longrightarrow>
     set u = {name f |f. f \<in> set fs \<and> name f \<notin> set ign
                \<and> is_src_field_auto_convertible f d = Inr False}"
proof (induction fs arbitrary: u)
  case Nil
  then show ?case by simp
next
  case (Cons f fs)
  show ?case
  proof (cases "name f \<in> set ign")
    case True
    with Cons show ?thesis by auto
  next
    case False
    with Cons.prems obtain ok rest where
      ok: "is_src_field_auto_convertible f d = Inr ok"
      and rest: "get_unhandled_fields fs d ign = Inr rest"
      and u: "u = (if \<not> ok then name f # rest else rest)"
      by (auto split: sum.splits)
    from Cons.IH [OF rest] ok u False show ?thesis
      by (cases ok) auto
  qed
qed

lemma unhandled_verdicts:
  "get_unhandled_fields fs d ign = Inr u \<Longrightarrow> f \<in> set fs \<Longrightarrow> name f \<notin> set ign \<Longrightarrow>
     \<exists>b. is_src_field_auto_convertible f d = Inr b"
  by (induction fs arbitrary: u) (auto split: sum.splits if_splits)

lemma unhandled_names_eq:
  assumes "get_unhandled_fields (fields from) (fields_by_name to) ignore = Inr unconverted"
  shows "unhandled_names cls from to ignore = set unconverted - claimed_field_names cls"
proof -
  have "\<And>f. f \<in> set (fields from) \<Longrightarrow> name f \<notin> set ignore \<Longrightarrow>
          (is_src_field_auto_convertible f (fields_by_name to) \<noteq> Inr True)
          = (is_src_field_auto_convertible f (fields_by_name to) = Inr False)"
    using unhandled_verdicts [OF assms] by (metis (full_types) Inr_inject)
  then show ?thesis
    unfolding unhandled_names_def unhandled_set [OF assms] by auto
qed

text \<open>
  C2, as the code has it. When no one-of group fans out (that validation runs first and
  raises its own configuration error) and the analysis returns, construction raises an
  error exactly when some source field that is not ignored is neither auto-convertible nor
  claimed by a registered user function; the error is the configuration error that
  carries the set of all these field names.
\<close>

theorem C2_unhandled_fields_error:
  assumes "get_unhandled_fields (fields from) (fields_by_name to) ignore = Inr unconverted"
    and "first_fanning from to ignore = None"
  shows "(ProtoConverter_init cls from to ignore = Inl (NotImplementedError_fields offending)
            \<longleftrightarrow> offending = unhandled_names cls from to ignore \<and> offending \<noteq> {})
         \<and> ((\<exists>e. ProtoConverter_init cls from to ignore = Inl e)
            \<longleftrightarrow> unhandled_names cls from to ignore \<noteq> {})"
  unfolding init_characterisation [OF assms(1)] assms(2) unhandled_names_eq [OF assms(1)]
  by auto

theorem C2_unhandled_fields_error_witness:
  "(ProtoConverter_init [] Seller Topping [] = Inl (NotImplementedError_fields {''seller''})
      \<longleftrightarrow> {''seller''} = unhandled_names [] Seller Topping [] \<and> {''seller''} \<noteq> ({} :: string set))
   \<and> ((\<exists>e. ProtoConverter_init [] Seller Topping [] = Inl e)
      \<longleftrightarrow> unhandled_names [] Seller Topping [] \<noteq> {})
   \<and> unhandled_names [] Seller Topping [] = {''seller''}"
proof -
  have analysis:
    "get_unhandled_fields (fields Seller) (fields_by_name Topping) [] = Inr [''seller'']"
    by code_simp
  have groups: "first_fanning Seller Topping [] = None"
    by code_simp
  have "claimed_field_names [] = {}"
    by (simp add: claimed_field_names_def dir_class_def)
  then have names: "unhandled_names [] Seller Topping [] = {''seller''}"
    by (simp add: unhandled_names_eq [OF analysis])
  from C2_unhandled_fields_error [OF analysis groups, of "[]" "{''seller''}"] names
  show ?thesis by simp
qed

text \<open>
  C2 as stated fails: the field \<open>seller\<close> is not ignored, not auto-convertible and not
  claimed, and construction raises the configuration error of the one-of validation, which
  names the group and not the field; and from \<open>TwoGroups\<close> to \<open>Plain\<close>, where every source
  field is auto-convertible, construction raises that configuration error as well.
\<close>

theorem C2_oneof_error_first_counterexample:
  "unhandled_names [] Choice Plain [] = {''seller''}
   \<and> map_sum id unconverted_fields (ProtoConverter_init [] Choice Plain [])
       = Inl (NotImplementedError_oneof ''choice'' ''Choice'')
   \<and> unhandled_names [] TwoGroups Plain [] = {}
   \<and> map_sum id unconverted_fields (ProtoConverter_init [] TwoGroups Plain [])
       = Inl (NotImplementedError_oneof ''g1'' ''TwoGroups'')"
proof -
  have analysis':
    "get_unhandled_fields (fields TwoGroups) (fields_by_name Plain) [] = Inr []"
    by code_simp
  have none: "unhandled_names [] TwoGroups Plain [] = {}"
    by (simp add: unhandled_names_eq [OF analysis'])
  have raised: "map_sum id unconverted_fields (ProtoConverter_init [] TwoGroups Plain [])
       = Inl (NotImplementedError_oneof ''g1'' ''TwoGroups'')"
    by code_simp
  have analysis:
    "get_unhandled_fields (fields Choice) (fields_by_name Plain) [] = Inr [''seller'']"
    by code_simp
  have "claimed_field_names [] = {}"
    by (simp add: claimed_field_names_def dir_class_def)
  then have "unhandled_names [] Choice Plain [] = {''seller''}"
    by (simp add: unhandled_names_eq [OF analysis])
  moreover have "map_sum id unconverted_fields (ProtoConverter_init [] Choice Plain [])
       = Inl (NotImplementedError_oneof ''choice'' ''Choice'')"
    by code_simp
  ultimately show ?thesis
    using none raised by simp
qed

text \<open>
  C3, as the code has it. When the analysis returns, construction fails with the
  configuration error naming a group and its owning schema exactly when that group is the
  first, in the order of validation (the source's groups, then the destination's), whose
  members that are not ignored have more than one destination target; the message
  contains both names.
\<close>

theorem C3_first_fanning_group_raises:
  assumes "get_unhandled_fields (fields from) (fields_by_name to) ignore = Inr unconverted"
  shows "(ProtoConverter_init cls from to ignore = Inl (NotImplementedError_oneof g p)
            \<longleftrightarrow> (\<exists>owner other members.
                   first_fanning from to ignore = Some (owner, other, g, members)
                   \<and> p = dname owner))
         \<and> (\<exists>pre mid post. oneof_error_message g p = pre @ g @ mid @ p @ post)"
proof
  show "ProtoConverter_init cls from to ignore = Inl (NotImplementedError_oneof g p)
            \<longleftrightarrow> (\<exists>owner other members.
                   first_fanning from to ignore = Some (owner, other, g, members)
                   \<and> p = dname owner)"
    unfolding init_characterisation [OF assms]
    by (auto split: option.splits)
  show "\<exists>pre mid post. oneof_error_message g p = pre @ g @ mid @ p @ post"
    unfolding oneof_error_message_def by (metis append.assoc)
qed

theorem C3_first_fanning_group_raises_witness:
  "(map_sum id unconverted_fields (ProtoConverter_init [] TwoGroups Plain [])
      = Inl (NotImplementedError_oneof ''g1'' ''TwoGroups''))
   \<and> first_fanning TwoGroups Plain [] = Some (TwoGroups, Plain, ''g1'', [''a'', ''b''])"
proof -
  have analysis: "get_unhandled_fields (fields TwoGroups) (fields_by_name Plain) [] = Inr []"
    by code_simp
  have first: "first_fanning TwoGroups Plain [] = Some (TwoGroups, Plain, ''g1'', [''a'', ''b''])"
    by code_simp
  have owner: "dname TwoGroups = ''TwoGroups''"
    by (simp add: TwoGroups_def)
  from C3_first_fanning_group_raises [OF analysis, of "[]" "''g1''" "''TwoGroups''"] first owner
  show ?thesis by simp
qed

text \<open>
  C3 as stated fails: the second group of the source fans out as well, and the error
  raised does not name it.
\<close>

theorem C3_second_group_not_named_counterexample:
  "(''g2'', [''c'', ''d'']) \<in> set (oneofs TwoGroups)
   \<and> fans_out Plain [] [''c'', ''d'']
   \<and> map_sum id unconverted_fields (ProtoConverter_init [] TwoGroups Plain [])
       \<noteq> Inl (NotImplementedError_oneof ''g2'' (dname TwoGroups))"
  by code_simp

lemma init_Inr_analysis:
  "ProtoConverter_init cls from to ignore = Inr self \<Longrightarrow>
     \<exists>u. get_unhandled_fields (fields from) (fields_by_name to) ignore = Inr u
         \<and> set u - claimed_field_names cls = {}
         \<and> self = ProtoConverter from to ignore (snd (register_functions cls (dir_class cls)))
                    (fst (register_functions cls (dir_class cls))) u"
  by (auto simp: ProtoConverter_init_def claimed_field_names_def
      split: prod.splits sum.splits if_splits)

text \<open>
  C6, as the code has it. After a successful construction every source field name is
  ignored, claimed by a registered user function or auto-convertible. The three sets may
  overlap, and the first two may hold names that are no source fields.
\<close>

theorem C6_every_field_accounted_for:
  assumes "ProtoConverter_init cls from to ignore = Inr self"
  shows "name ` set (fields from)
           \<subseteq> set (field_names_to_ignore self) \<union> set (function_convert_field_names self)
              \<union> auto_convertible_names from to"
proof
  fix n assume "n \<in> name ` set (fields from)"
  then obtain f where f: "f \<in> set (fields from)" and n: "n = name f" by auto
  from init_Inr_analysis [OF assms] obtain u where
    u: "get_unhandled_fields (fields from) (fields_by_name to) ignore = Inr u"
    and c: "set u - claimed_field_names cls = {}"
    and s: "self = ProtoConverter from to ignore (snd (register_functions cls (dir_class cls)))
                    (fst (register_functions cls (dir_class cls))) u"
    by blast
  show "n \<in> set (field_names_to_ignore self) \<union> set (function_convert_field_names self)
              \<union> auto_convertible_names from to"
  proof (cases "name f \<in> set ignore")
    case True
    with s n show ?thesis by simp
  next
    case False
    from unhandled_verdicts [OF u f False] obtain b where
      b: "is_src_field_auto_convertible f (fields_by_name to) = Inr b" by blast
    show ?thesis
    proof (cases b)
      case True
      with b f n show ?thesis by (auto simp: auto_convertible_names_def)
    next
      case False
      with b f \<open>name f \<notin> set ignore\<close> have "name f \<in> set u"
        unfolding unhandled_set [OF u] by auto
      with c have "name f \<in> claimed_field_names cls" by auto
      with s n show ?thesis by (simp add: claimed_field_names_def)
    qed
  qed
qed

theorem C6_every_field_accounted_for_witness:
  "name ` set (fields Topping)
     \<subseteq> set (field_names_to_ignore (ProtoConverter Topping Topping [] [''name'']
              [(''a_handler'', set_name ''a''), (''b_handler'', set_name ''b'')] []))
        \<union> set (function_convert_field_names (ProtoConverter Topping Topping [] [''name'']
              [(''a_handler'', set_name ''a''), (''b_handler'', set_name ''b'')] []))
        \<union> auto_convertible_names Topping Topping"
proof -
  have listed: "dir_class two_handlers = [''a_handler'', ''b_handler'']"
    by code_simp
  have registered: "register_functions two_handlers [''a_handler'', ''b_handler'']
      = ([(''a_handler'', set_name ''a''), (''b_handler'', set_name ''b'')], [''name''])"
    by (simp add: two_handlers_def)
  have unhandled: "get_unhandled_fields (fields Topping) (fields_by_name Topping) [] = Inr []"
    by code_simp
  have groups: "oneofs Topping = []"
    by (simp add: Topping_def)
  have init: "ProtoConverter_init two_handlers Topping Topping []
      = Inr (ProtoConverter Topping Topping [] [''name'']
         [(''a_handler'', set_name ''a''), (''b_handler'', set_name ''b'')] [])"
    unfolding ProtoConverter_init_def listed registered
    by (simp add: unhandled groups)
  show ?thesis
    by (rule C6_every_field_accounted_for [OF init])
qed

text \<open>
  C6 as stated fails: the field \<open>name\<close> is claimed by a registered user function and is
  auto-convertible, so the sets are not disjoint.
\<close>

theorem C6_claimed_and_convertible_counterexample:
  "map_sum id (\<lambda>self. ''name'' \<in> set (function_convert_field_names self))
       (ProtoConverter_init two_handlers Topping Topping []) = Inr True
   \<and> ''name'' \<in> auto_convertible_names Topping Topping"
proof -
  have "map_sum id (\<lambda>self. ''name'' \<in> set (function_convert_field_names self))
       (ProtoConverter_init two_handlers Topping Topping []) = Inr True"
    by code_simp
  moreover have "FieldDescriptor ''name'' LABEL_OPTIONAL TYPE_STRING None
        \<in> set (fields Topping)"
    by (simp add: Topping_def)
  moreover have "is_src_field_auto_convertible
       (FieldDescriptor ''name'' LABEL_OPTIONAL TYPE_STRING None) (fields_by_name Topping)
     = Inr True"
    by code_simp
  ultimately show ?thesis
    unfolding auto_convertible_names_def by force
qed

lemma unhandled_cong:
  "\<forall>f \<in> set fs. (name f \<in> set ign') = (name f \<in> set ign) \<Longrightarrow>
     get_unhandled_fields fs d ign' = get_unhandled_fields fs d ign"
  by (induction fs) (auto split: sum.splits)

lemma mapped_field_members_cong:
  "\<forall>m \<in> set ms. (m \<in> ign') = (m \<in> ign) \<Longrightarrow>
     mapped_field dict names ign' ms = mapped_field dict names ign ms"
  by (induction ms) (auto simp: Let_def)

lemma mapped_field_outside_cong:
  "ign' = ign \<union> X \<Longrightarrow> X \<inter> names = {} \<Longrightarrow> dom dict \<subseteq> names \<Longrightarrow>
     mapped_field dict names ign' ms = mapped_field dict names ign ms"
  by (induction ms) (auto simp: Let_def split: option.splits)

lemma validate_oneofs_cong:
  "\<forall>(g, ms) \<in> set groups.
      mapped_field dict names ign' ms = mapped_field dict names ign ms \<Longrightarrow>
     validate_oneofs n dict names ign' groups = validate_oneofs n dict names ign groups"
  by (induction groups) auto

lemma dom_fold_upd:
  "dom (fold (\<lambda>field r. r(field \<mapsto> n)) fs (r :: string \<rightharpoonup> string)) = dom r \<union> set fs"
  by (induction fs arbitrary: r) auto

lemma dom_fold_groups:
  "dom (fold (\<lambda>(oneof_name, oneof_fields) result_dict.
               fold (\<lambda>field r. r(field \<mapsto> oneof_name)) oneof_fields result_dict)
             groups (r :: string \<rightharpoonup> string))
   = dom r \<union> \<Union> (set ` snd ` set groups)"
  by (induction groups arbitrary: r) (simp_all add: dom_fold_upd case_prod_beta Un_assoc)

lemma dom_fields_to_oneof_dict:
  "dom (get_fields_to_oneof_dict groups) = \<Union> (set ` snd ` set groups)"
  by (simp add: get_fields_to_oneof_dict_def dom_fold_groups)

lemma init_outcome:
  "map_sum id unconverted_fields (ProtoConverter_init cls from to ignore) =
     (case get_unhandled_fields (fields from) (fields_by_name to) ignore of
        Inl e \<Rightarrow> Inl e
      | Inr unconverted \<Rightarrow>
     (case (if oneofs from \<noteq> []
            then validate_oneof_field_multi_mapping from to ignore else Inr ()) of
        Inl e \<Rightarrow> Inl e
      | Inr _ \<Rightarrow>
     (case (if oneofs to \<noteq> []
            then validate_oneof_field_multi_mapping to from ignore else Inr ()) of
        Inl e \<Rightarrow> Inl e
      | Inr _ \<Rightarrow>
          if set unconverted - claimed_field_names cls \<noteq> {}
          then Inl (NotImplementedError_fields (set unconverted - claimed_field_names cls))
          else Inr unconverted)))"
proof -
  obtain funs names where
    r: "register_functions cls (dir_class cls) = (funs, names)"
    by (cases "register_functions cls (dir_class cls)")
  show ?thesis
    unfolding ProtoConverter_init_def claimed_field_names_def r
    by (auto split: sum.splits)
qed

text \<open>
  C10. Names in the ignore list, or claimed by registered user functions, that are no
  source field names change nothing: the list of unhandled fields is the same, and the
  constructor raises the same error or succeeds with the same unhandled fields. (The members
  of the source's one-of groups are fields of the source.)
\<close>

theorem C10_names_outside_the_source_change_nothing:
  assumes members: "\<forall>(g, ms) \<in> set (oneofs from). set ms \<subseteq> name ` set (fields from)"
    and ignore': "set ignore' = set ignore \<union> X"
    and X: "X \<inter> name ` set (fields from) = {}"
    and claims': "claimed_field_names cls' = claimed_field_names cls \<union> Y"
    and Y: "Y \<inter> name ` set (fields from) = {}"
  shows "get_unhandled_fields (fields from) (fields_by_name to) ignore'
           = get_unhandled_fields (fields from) (fields_by_name to) ignore
         \<and> map_sum id unconverted_fields (ProtoConverter_init cls' from to ignore')
           = map_sum id unconverted_fields (ProtoConverter_init cls from to ignore)"
proof -
  have analysis: "get_unhandled_fields (fields from) (fields_by_name to) ignore'
           = get_unhandled_fields (fields from) (fields_by_name to) ignore"
    using ignore' X by (intro unhandled_cong) auto
  have "\<forall>(g, ms) \<in> set (oneofs from).
          mapped_field (get_fields_to_oneof_dict (oneofs to)) (name ` set (fields to))
            (set ignore') ms
          = mapped_field (get_fields_to_oneof_dict (oneofs to)) (name ` set (fields to))
            (set ignore) ms"
  proof (clarify, rule mapped_field_members_cong, rule ballI)
    fix g ms m
    assume "(g, ms) \<in> set (oneofs from)" and "m \<in> set ms"
    with members have "m \<in> name ` set (fields from)"
      by blast
    with X have "m \<notin> X"
      by blast
    with ignore' show "(m \<in> set ignore') = (m \<in> set ignore)"
      by simp
  qed
  then have v1: "validate_oneof_field_multi_mapping from to ignore'
                 = validate_oneof_field_multi_mapping from to ignore"
    unfolding validate_oneof_field_multi_mapping_def by (rule validate_oneofs_cong)
  have "dom (get_fields_to_oneof_dict (oneofs from)) \<subseteq> name ` set (fields from)"
    unfolding dom_fields_to_oneof_dict
  proof
    fix m assume "m \<in> \<Union> (set ` snd ` set (oneofs from))"
    then obtain g ms where "(g, ms) \<in> set (oneofs from)" and "m \<in> set ms"
      by force
    with members show "m \<in> name ` set (fields from)"
      by blast
  qed
  then have "\<forall>(g, ms) \<in> set (oneofs to).
          mapped_field (get_fields_to_oneof_dict (oneofs from)) (name ` set (fields from))
            (set ignore') ms
          = mapped_field (get_fields_to_oneof_dict (oneofs from)) (name ` set (fields from))
            (set ignore) ms"
    using ignore' X mapped_field_outside_cong [of "set ignore'" "set ignore" X]
    by simp
  then have v2: "validate_oneof_field_multi_mapping to from ignore'
                 = validate_oneof_field_multi_mapping to from ignore"
    unfolding validate_oneof_field_multi_mapping_def by (rule validate_oneofs_cong)
  have c: "\<And>u. get_unhandled_fields (fields from) (fields_by_name to) ignore = Inr u \<Longrightarrow>
             set u - claimed_field_names cls' = set u - claimed_field_names cls"
  proof -
    fix u assume "get_unhandled_fields (fields from) (fields_by_name to) ignore = Inr u"
    from unhandled_set [OF this] have "set u \<subseteq> name ` set (fields from)"
      by auto
    with claims' Y show "set u - claimed_field_names cls' = set u - claimed_field_names cls"
      by auto
  qed
  have "map_sum id unconverted_fields (ProtoConverter_init cls' from to ignore')
           = map_sum id unconverted_fields (ProtoConverter_init cls from to ignore)"
  proof (cases "get_unhandled_fields (fields from) (fields_by_name to) ignore")
    case (Inl e)
    then show ?thesis
      unfolding init_outcome analysis v1 v2 by simp
  next
    case (Inr u)
    show ?thesis
      unfolding init_outcome analysis v1 v2 Inr sum.case c [OF Inr] by (rule refl)
  qed
  with analysis show ?thesis by simp
qed

theorem C10_names_outside_the_source_change_nothing_witness:
  "get_unhandled_fields (fields Seller) (fields_by_name Topping) [''ghost'']
     = get_unhandled_fields (fields Seller) (fields_by_name Topping) []
   \<and> map_sum id unconverted_fields (ProtoConverter_init ghost_handlers Seller Topping [''ghost''])
     = map_sum id unconverted_fields (ProtoConverter_init two_handlers Seller Topping [])
   \<and> map_sum id unconverted_fields (ProtoConverter_init two_handlers Seller Topping [])
     = Inl (NotImplementedError_fields {''seller''})"
proof -
  have members: "\<forall>(g, ms) \<in> set (oneofs Seller). set ms \<subseteq> name ` set (fields Seller)"
    by (simp add: Seller_def)
  have ignore': "set [''ghost''] = set [] \<union> {''ghost''}"
    by simp
  have X: "{''ghost''} \<inter> name ` set (fields Seller) = {}"
    by (simp add: Seller_def)
  have "claimed_field_names ghost_handlers = {''name'', ''ghost''}"
    by code_simp
  moreover have "claimed_field_names two_handlers = {''name''}"
    by code_simp
  ultimately have claims':
    "claimed_field_names ghost_handlers = claimed_field_names two_handlers \<union> {''ghost''}"
    by auto
  have raised: "map_sum id unconverted_fields (ProtoConverter_init two_handlers Seller Topping [])
     = Inl (NotImplementedError_fields {''seller''})"
    by code_simp
  from C10_names_outside_the_source_change_nothing [OF members ignore' X claims' X, of Topping]
    raised
  show ?thesis by simp
qed

section \<open>Theorems: the automatic copy\<close>

lemma map_of_assign:
  "map_of (assign k v xs) = (map_of xs)(k \<mapsto> v)"
  by (induction xs) (auto simp: fun_eq_iff)

lemma DESCRIPTOR_setattr:
  "DESCRIPTOR (setattr m n v) = DESCRIPTOR m"
  by (simp add: setattr_def)

lemma map_of_setattr:
  "map_of (set_fields (setattr m n v)) = (map_of (set_fields m))(n \<mapsto> v)"
  by (simp add: setattr_def map_of_assign)

text \<open>The loop does not touch the fields it does not list, and keeps the descriptor.\<close>

lemma auto_convert_fields_other:
  "auto_convert_fields lib self listed dest_proto = Inr dest_proto' \<Longrightarrow>
     n \<notin> (name \<circ> fst) ` set listed \<Longrightarrow>
     map_of (set_fields dest_proto') n = map_of (set_fields dest_proto) n"
proof (induction listed arbitrary: dest_proto)
  case Nil
  then show ?case by simp
next
  case (Cons entry listed)
  obtain fd v where entry: "entry = (fd, v)"
    by (cases entry)
  from Cons.prems(2) entry have n: "n \<noteq> name fd" "n \<notin> (name \<circ> fst) ` set listed"
    by auto
  show ?case
  proof (cases "name fd \<in> set (field_names_to_ignore self)
                \<or> name fd \<in> set (unconverted_fields self)")
    case True
    with Cons.prems(1) entry have "auto_convert_fields lib self listed dest_proto = Inr dest_proto'"
      by simp
    from Cons.IH [OF this n(2)] show ?thesis .
  next
    case False
    with Cons.prems(1) entry obtain dfd v' where
      "auto_convert_fields lib self listed (setattr dest_proto (name fd) v') = Inr dest_proto'"
      by (auto split: option.splits sum.splits)
    from Cons.IH [OF this n(2)] n(1) show ?thesis
      by (simp add: map_of_setattr)
  qed
qed

lemma auto_convert_fields_descriptor:
  "auto_convert_fields lib self listed dest_proto = Inr dest_proto' \<Longrightarrow>
     DESCRIPTOR dest_proto' = DESCRIPTOR dest_proto"
proof (induction listed arbitrary: dest_proto)
  case Nil
  then show ?case by simp
next
  case (Cons entry listed)
  obtain fd v where entry: "entry = (fd, v)"
    by (cases entry)
  show ?case
  proof (cases "name fd \<in> set (field_names_to_ignore self)
                \<or> name fd \<in> set (unconverted_fields self)")
    case True
    with Cons.prems(1) entry have "auto_convert_fields lib self listed dest_proto = Inr dest_proto'"
      by simp
    from Cons.IH [OF this] show ?thesis .
  next
    case False
    with Cons.prems(1) entry obtain dfd v' where
      "auto_convert_fields lib self listed (setattr dest_proto (name fd) v') = Inr dest_proto'"
      by (auto split: option.splits sum.splits)
    from Cons.IH [OF this] show ?thesis
      by (simp add: DESCRIPTOR_setattr)
  qed
qed

text \<open>
  A listed field that is neither ignored nor unhandled: the destination holds, after the
  loop, the value the body of the loop computed for it.
\<close>

lemma auto_convert_fields_field:
  "auto_convert_fields lib self listed dest_proto = Inr dest_proto' \<Longrightarrow>
     distinct (map (name \<circ> fst) listed) \<Longrightarrow> (fd, v) \<in> set listed \<Longrightarrow>
     name fd \<notin> set (field_names_to_ignore self) \<Longrightarrow>
     name fd \<notin> set (unconverted_fields self) \<Longrightarrow>
     \<exists>dfd v'. fields_by_name (DESCRIPTOR dest_proto) (name fd) = Some dfd
        \<and> convert_field lib fd dfd (map_of (set_fields dest_proto) (name fd)) v = Inr v'
        \<and> map_of (set_fields dest_proto') (name fd) = Some v'"
proof (induction listed arbitrary: dest_proto)
  case Nil
  then show ?case by simp
next
  case (Cons entry listed)
  obtain fd0 v0 where entry: "entry = (fd0, v0)"
    by (cases entry)
  from Cons.prems(2) entry have fresh: "name fd0 \<notin> (name \<circ> fst) ` set listed"
    and rest: "distinct (map (name \<circ> fst) listed)"
    by (auto simp: comp_def)
  show ?case
  proof (cases "(fd, v) = (fd0, v0)")
    case True
    with Cons.prems(1,4,5) entry obtain dfd v' where
      dfd: "fields_by_name (DESCRIPTOR dest_proto) (name fd) = Some dfd"
      and v': "convert_field lib fd dfd (map_of (set_fields dest_proto) (name fd)) v = Inr v'"
      and run: "auto_convert_fields lib self listed (setattr dest_proto (name fd) v')
                = Inr dest_proto'"
      by (auto split: option.splits sum.splits)
    from auto_convert_fields_other [OF run] fresh True
    have "map_of (set_fields dest_proto') (name fd) = Some v'"
      by (simp add: map_of_setattr)
    with dfd v' show ?thesis by blast
  next
    case False
    with Cons.prems(3) entry have member: "(fd, v) \<in> set listed"
      by auto
    with fresh have other: "name fd \<noteq> name fd0"
      by force
    show ?thesis
    proof (cases "name fd0 \<in> set (field_names_to_ignore self)
                  \<or> name fd0 \<in> set (unconverted_fields self)")
      case True
      with Cons.prems(1) entry
      have "auto_convert_fields lib self listed dest_proto = Inr dest_proto'"
        by simp
      from Cons.IH [OF this rest member Cons.prems(4,5)] show ?thesis .
    next
      case False
      with Cons.prems(1) entry obtain v0' where
        "auto_convert_fields lib self listed (setattr dest_proto (name fd0) v0')
         = Inr dest_proto'"
        by (auto split: option.splits sum.splits)
      from Cons.IH [OF this rest member Cons.prems(4,5)] other show ?thesis
        by (simp add: DESCRIPTOR_setattr map_of_setattr)
    qed
  qed
qed

text \<open>The fields \<^verbatim>\<open>ListFields\<close> lists are fields of the descriptor, in its order.\<close>

lemma map_filter_names:
  assumes "\<And>x y. g x = Some y \<Longrightarrow> h y = k x"
  shows "map h (List.map_filter g xs) = map k (filter (\<lambda>x. g x \<noteq> None) xs)"
  using assms by (induction xs) (auto split: option.splits)

lemma ListFields_names:
  "map (name \<circ> fst) (ListFields m)
   = map name (filter (\<lambda>fd. \<exists>v. map_of (set_fields m) (name fd) = Some v \<and> is_populated v)
                 (fields (DESCRIPTOR m)))"
proof -
  have "map (name \<circ> fst) (ListFields m)
        = map name (filter (\<lambda>fd. (case map_of (set_fields m) (name fd) of
                                    None \<Rightarrow> None
                                  | Some v \<Rightarrow> if is_populated v then Some (fd, v) else None)
                                 \<noteq> None)
                      (fields (DESCRIPTOR m)))"
    unfolding ListFields_def
    by (rule map_filter_names) (auto split: option.splits if_splits)
  also have "\<dots> = map name (filter (\<lambda>fd. \<exists>v. map_of (set_fields m) (name fd) = Some v
                                           \<and> is_populated v)
                                (fields (DESCRIPTOR m)))"
    by (rule arg_cong [where f = "map name"], rule filter_cong)
       (auto split: option.splits)
  finally show ?thesis .
qed

lemma ListFields_distinct:
  "distinct (map name (fields (DESCRIPTOR m))) \<Longrightarrow> distinct (map (name \<circ> fst) (ListFields m))"
  unfolding ListFields_names by (rule distinct_map_filter)

text \<open>The loop of lines 171 to 177, when it completes.\<close>

lemma convert_any_elements_result:
  "convert_any_elements lib elements = Inr added \<Longrightarrow>
     \<exists>objects.
        list_all2 (\<lambda>element obj. \<exists>field. element = Msg field \<and> unpack_new lib field = Inr obj)
          elements objects
        \<and> added = map (\<lambda>obj. Msg (Pack lib obj)) objects"
proof (induction lib elements arbitrary: added rule: convert_any_elements.induct)
  case (1 lib)
  then show ?case by simp
next
  case (2 lib field rest)
  from "2.prems" obtain obj added' where
    obj: "unpack_new lib field = Inr obj"
    and rest: "convert_any_elements lib rest = Inr added'"
    and added: "added = Msg (Pack lib obj) # added'"
    by (auto split: sum.splits)
  from "2.IH" [OF obj rest] obtain objects where
    "list_all2 (\<lambda>element obj. \<exists>field. element = Msg field \<and> unpack_new lib field = Inr obj)
       rest objects"
    and "added' = map (\<lambda>obj. Msg (Pack lib obj)) objects"
    by blast
  with obj added have
    "list_all2 (\<lambda>element obj. \<exists>field. element = Msg field \<and> unpack_new lib field = Inr obj)
       (Msg field # rest) (obj # objects)
     \<and> added = map (\<lambda>obj. Msg (Pack lib obj)) (obj # objects)"
    by simp
  then show ?case by blast
qed simp_all

text \<open>
  C4, as the code has it. When the automatic copy of \<^verbatim>\<open>convert\<close> completes, a listed
  repeated field of any-wrappers that is neither ignored nor unhandled stands in the
  destination with one element for each element of the source, in order: the source's
  element is unpacked into a new instance of the type the registry finds under the
  element's type name, and the destination's element is a new any-wrapper into which that
  instance is packed. (The field names of the source's schema are distinct.)
\<close>

theorem C4_repeated_any_elements_repacked:
  assumes "distinct (map name (fields (DESCRIPTOR src_proto)))"
    and "(fd, RepeatedField elements) \<in> set (ListFields src_proto)"
    and "is_map_field fd = Inr False"
    and "label fd = LABEL_REPEATED"
    and "is_any_field fd"
    and "name fd \<notin> set (field_names_to_ignore self)"
    and "name fd \<notin> set (unconverted_fields self)"
    and "auto_convert lib self src_proto (Message (pb_class_to self) []) = Inr dest_proto"
  shows "\<exists>objects.
           list_all2 (\<lambda>element obj. \<exists>field. element = Msg field
                                      \<and> unpack_new lib field = Inr obj)
             elements objects
           \<and> map_of (set_fields dest_proto) (name fd)
             = Some (RepeatedField (map (\<lambda>obj. Msg (Pack lib obj)) objects))"
proof -
  from assms(8) have run:
    "auto_convert_fields lib self (ListFields src_proto) (Message (pb_class_to self) [])
     = Inr dest_proto"
    by (simp add: auto_convert_def)
  from auto_convert_fields_field
         [OF run ListFields_distinct [OF assms(1)] assms(2) assms(6) assms(7)]
  obtain dfd v' where
    v': "convert_field lib fd dfd None (RepeatedField elements) = Inr v'"
    and stored: "map_of (set_fields dest_proto) (name fd) = Some v'"
    by auto
  from v' assms(3,4,5) obtain added where
    added: "convert_any_elements lib elements = Inr added"
    and "v' = RepeatedField added"
    by (cases "convert_any_elements lib elements") (auto simp: convert_field_def)
  with convert_any_elements_result [OF added] stored show ?thesis
    by auto
qed

theorem C4_repeated_any_elements_repacked_witness:
  "\<exists>objects.
     list_all2 (\<lambda>element obj. \<exists>field. element = Msg field
                                \<and> unpack_new toy_library field = Inr obj)
       [Msg (Pack toy_library jelly)] objects
     \<and> map_of (set_fields basket_of_jelly) ''items''
       = Some (RepeatedField (map (\<lambda>obj. Msg (Pack toy_library obj)) objects))"
proof -
  let ?fd = "FieldDescriptor ''items'' LABEL_REPEATED TYPE_MESSAGE (Some Any_DESCRIPTOR)"
  let ?self = "ProtoConverter Basket Basket [] [] [] []"
  have names: "distinct (map name (fields (DESCRIPTOR basket_of_jelly)))"
    by (simp add: basket_of_jelly_def Basket_def)
  have listed: "(?fd, RepeatedField [Msg (Pack toy_library jelly)])
                \<in> set (ListFields basket_of_jelly)"
    by code_simp
  have no_map: "is_map_field ?fd = Inr False"
    by code_simp
  have repeated: "label ?fd = LABEL_REPEATED"
    by simp
  have any: "is_any_field ?fd"
    by code_simp
  have ignored: "name ?fd \<notin> set (field_names_to_ignore ?self)"
    by simp
  have unhandled: "name ?fd \<notin> set (unconverted_fields ?self)"
    by simp
  have run: "auto_convert toy_library ?self basket_of_jelly (Message (pb_class_to ?self) [])
             = Inr basket_of_jelly"
    by code_simp
  from C4_repeated_any_elements_repacked
         [OF names listed no_map repeated any ignored unhandled run]
  show ?thesis by simp
qed

text \<open>
  C4 as stated fails: the concrete instance the element is unpacked into is a Topping; the
  element the destination's field receives is an any-wrapper, not that instance.
\<close>

theorem C4_concrete_instance_not_appended_counterexample:
  "unpack_new toy_library (Pack toy_library jelly) = Inr jelly
   \<and> DESCRIPTOR jelly = Topping
   \<and> map_sum id (\<lambda>self. snd (convert toy_library self basket_of_jelly))
       (ProtoConverter_init [] Basket Basket [])
     = Inr (Inr (Message Basket [(''items'', RepeatedField [Msg (Pack toy_library jelly)])]))
   \<and> Msg (Pack toy_library jelly) \<noteq> Msg jelly
   \<and> DESCRIPTOR (Pack toy_library jelly) = Any_DESCRIPTOR
   \<and> Any_DESCRIPTOR \<noteq> Topping"
  by code_simp

section \<open>Theorems: the round trip\<close>

lemma fields_by_name_name:
  "fields_by_name d n = Some f \<Longrightarrow> name f = n"
  by (auto simp: fields_by_name_def find_Some_iff)

lemma find_by_name:
  "distinct (map name fs) \<Longrightarrow> f \<in> set fs \<Longrightarrow> find (\<lambda>x. name x = name f) fs = Some f"
  by (induction fs) (auto simp: image_iff)

lemma fields_by_name_member:
  "distinct (map name (fields d)) \<Longrightarrow> f \<in> set (fields d) \<Longrightarrow>
     fields_by_name d (name f) = Some f"
  by (simp add: fields_by_name_def find_by_name)

text \<open>A field analysed against itself is auto-convertible, when the analysis returns.\<close>

lemma self_convertible:
  "is_src_field_auto_convertible f d = Inr b \<Longrightarrow> d (name f) = Some f \<Longrightarrow> b"
proof (induction "size f" arbitrary: f d b rule: less_induct)
  case less
  note run = less.prems(1) and dest = less.prems(2)
  have sub: "kb" if "message_type f = Some m" "fields_by_name m n = Some k"
      "is_src_field_auto_convertible k (fields_by_name m) = Inr kb" for m n k kb
  proof -
    from that(1,2) have "size k < size f"
      using fields_by_name_size message_type_size by fastforce
    moreover from that(2) have "fields_by_name m (name k) = Some k"
      by (simp add: fields_by_name_name)
    ultimately show ?thesis
      using less.hyps that(3) by blast
  qed
  from run dest show ?case
    by (subst (asm) is_src_field_auto_convertible.simps)
       (auto simp: same_descriptor_def dest: sub
             split: option.splits sum.splits bool.splits if_splits)
qed

lemma analysed_map_field:
  assumes "is_src_field_auto_convertible f d = Inr b" and "d (name f) = Some f"
  shows "\<exists>mb. is_map_field f = Inr mb
           \<and> (mb \<longrightarrow> (\<exists>m vf. message_type f = Some m
                             \<and> fields_by_name m ''value'' = Some vf))"
proof -
  have sub: "kb" if "fields_by_name m n = Some k"
      "is_src_field_auto_convertible k (fields_by_name m) = Inr kb" for m n k kb
    using that self_convertible [of k "fields_by_name m" kb]
    by (simp add: fields_by_name_name)
  from assms show ?thesis
    by (subst (asm) is_src_field_auto_convertible.simps)
       (auto dest: sub split: option.splits sum.splits bool.splits if_splits)
qed

text \<open>The one-of groups of a schema whose groups share no member, against itself.\<close>

lemma fold_upd_other:
  "m \<notin> set ms \<Longrightarrow> fold (\<lambda>field r. r(field \<mapsto> g)) ms (r :: string \<rightharpoonup> string) m = r m"
  by (induction ms arbitrary: r) auto

lemma fold_upd_member:
  "m \<in> set ms \<Longrightarrow> fold (\<lambda>field r. r(field \<mapsto> g)) ms (r :: string \<rightharpoonup> string) m = Some g"
proof (induction ms arbitrary: r)
  case Nil
  then show ?case by simp
next
  case (Cons a ms)
  show ?case
  proof (cases "m \<in> set ms")
    case True
    from Cons.IH [OF this] show ?thesis by simp
  next
    case False
    with Cons.prems have "a = m" by simp
    with False show ?thesis by (simp add: fold_upd_other fun_upd_same del: fun_upd_apply)
  qed
qed

lemma fold_groups_other:
  "m \<notin> \<Union> (set ` snd ` set groups) \<Longrightarrow>
     fold (\<lambda>(oneof_name, oneof_fields) result_dict.
             fold (\<lambda>field r. r(field \<mapsto> oneof_name)) oneof_fields result_dict)
       groups (r :: string \<rightharpoonup> string) m = r m"
  by (induction groups arbitrary: r) (auto simp: fold_upd_other)

lemma fold_groups_member:
  "distinct (concat (map snd groups)) \<Longrightarrow> (g, ms) \<in> set groups \<Longrightarrow> m \<in> set ms \<Longrightarrow>
     fold (\<lambda>(oneof_name, oneof_fields) result_dict.
             fold (\<lambda>field r. r(field \<mapsto> oneof_name)) oneof_fields result_dict)
       groups (r :: string \<rightharpoonup> string) m = Some g"
proof (induction groups arbitrary: r)
  case Nil
  then show ?case by simp
next
  case (Cons group groups)
  obtain g0 ms0 where group: "group = (g0, ms0)"
    by (cases group)
  show ?case
  proof (cases "(g, ms) = (g0, ms0)")
    case True
    with Cons.prems(1,3) group have "m \<notin> \<Union> (set ` snd ` set groups)"
      by auto
    from fold_groups_other [OF this] have
      "fold (\<lambda>(oneof_name, oneof_fields) result_dict.
               fold (\<lambda>field r. r(field \<mapsto> oneof_name)) oneof_fields result_dict)
         groups (fold (\<lambda>field r. r(field \<mapsto> g0)) ms0 r) m
       = fold (\<lambda>field r. r(field \<mapsto> g0)) ms0 r m" .
    also from True Cons.prems(3) have "\<dots> = Some g"
      by (simp add: fold_upd_member)
    finally show ?thesis
      using group by (simp del: fun_upd_apply)
  next
    case False
    with Cons.prems(2) group have "(g, ms) \<in> set groups"
      by auto
    moreover from Cons.prems(1) have "distinct (concat (map snd groups))"
      by simp
    ultimately show ?thesis
      using Cons.IH Cons.prems(3) group by simp
  qed
qed

lemma mapped_field_single:
  "\<forall>m \<in> set ms. dict m = Some g \<Longrightarrow> mapped_field dict names ign ms \<subseteq> {g}"
  by (induction ms) (auto simp: Let_def)

lemma validate_oneofs_single:
  "\<forall>(g, ms) \<in> set groups. \<forall>m \<in> set ms. dict m = Some g \<Longrightarrow>
     validate_oneofs n dict names ign groups = Inr ()"
proof (induction groups)
  case Nil
  then show ?case by simp
next
  case (Cons group groups)
  obtain g ms where group: "group = (g, ms)"
    by (cases group)
  with Cons.prems have "mapped_field dict names ign ms \<subseteq> {g}"
    by (intro mapped_field_single) auto
  then have "card (mapped_field dict names ign ms) \<le> card {g}"
    by (intro card_mono) auto
  with Cons group show ?case
    by auto
qed

lemma validate_against_itself:
  assumes "distinct (concat (map snd (oneofs T)))"
  shows "validate_oneof_field_multi_mapping T T ignore = Inr ()"
  unfolding validate_oneof_field_multi_mapping_def
  by (rule validate_oneofs_single)
     (auto simp: get_fields_to_oneof_dict_def intro!: fold_groups_member [OF assms])

text \<open>\<^verbatim>\<open>MergeFrom\<close> into an empty map field stores the entries as they are.\<close>

lemma assign_fresh:
  "k \<notin> fst ` set xs \<Longrightarrow> assign k v xs = xs @ [(k, v)]"
  by (induction xs) auto

lemma fold_assign_distinct:
  "distinct (map fst (acc @ es)) \<Longrightarrow>
     fold (\<lambda>(key, v) entries. assign key v entries) es acc = acc @ es"
proof (induction es arbitrary: acc)
  case Nil
  then show ?case by simp
next
  case (Cons e es)
  obtain k v where e: "e = (k, v)"
    by (cases e)
  from Cons.prems e have "k \<notin> fst ` set acc"
    by auto
  then have "assign k v acc = acc @ [(k, v)]"
    by (rule assign_fresh)
  moreover from Cons.prems e have "distinct (map fst ((acc @ [(k, v)]) @ es))"
    by simp
  ultimately show ?case
    using Cons.IH [of "acc @ [(k, v)]"] e by simp
qed

lemma merge_entries_empty:
  "distinct (map fst es) \<Longrightarrow> merge_entries [] es = es"
  using fold_assign_distinct [of "[]" es] by (simp add: merge_entries_def)

text \<open>An instance the library can carry is unpacked from its any-wrapper as it was packed.\<close>

lemma type_url_Pack:
  "type_url (Pack lib obj) = ''type.googleapis.com/'' @ full_name (DESCRIPTOR obj)"
  by (simp add: type_url_def Pack_def)

lemma any_value_Pack:
  "any_value (Pack lib obj) = SerializeToString lib obj"
  by (simp add: any_value_def Pack_def)

lemma TypeName_Pack:
  assumes "CHR ''/'' \<notin> set (full_name (DESCRIPTOR obj))"
  shows "TypeName (Pack lib obj) = full_name (DESCRIPTOR obj)"
proof -
  have "rev (type_url (Pack lib obj))
        = rev (full_name (DESCRIPTOR obj)) @ CHR ''/'' # rev ''type.googleapis.com''"
    unfolding type_url_Pack by simp
  moreover have "takeWhile (\<lambda>c. c \<noteq> CHR ''/'')
                   (rev (full_name (DESCRIPTOR obj)) @ CHR ''/'' # rev ''type.googleapis.com'')
                 = takeWhile (\<lambda>c. c \<noteq> CHR ''/'') (rev (full_name (DESCRIPTOR obj)))"
    by (rule takeWhile_tail) simp
  moreover from assms have "takeWhile (\<lambda>c. c \<noteq> CHR ''/'') (rev (full_name (DESCRIPTOR obj)))
                 = rev (full_name (DESCRIPTOR obj))"
    by (auto simp: takeWhile_eq_all_conv)
  ultimately show ?thesis
    by (simp add: TypeName_def)
qed

lemma unpack_new_Pack:
  assumes "round_trips lib obj"
  shows "unpack_new lib (Pack lib obj) = Inr obj"
proof -
  from assms have no_slash: "CHR ''/'' \<notin> set (full_name (DESCRIPTOR obj))"
    and registered: "FindMessageTypeByName lib (full_name (DESCRIPTOR obj))
                     = Some (DESCRIPTOR obj)"
    and decoded: "ParseFromString lib (DESCRIPTOR obj) (SerializeToString lib obj) = Some obj"
    by (simp_all add: round_trips_def)
  have "Is (Pack lib obj) (DESCRIPTOR obj)"
    unfolding Is_def TypeName_Pack [OF no_slash] type_url_Pack by simp
  then have "Unpack lib (Pack lib obj) (Message (DESCRIPTOR obj) []) = Inr obj"
    by (simp add: Unpack_def any_value_Pack decoded)
  with registered show ?thesis
    by (simp add: unpack_new_def TypeName_Pack [OF no_slash])
qed

lemma convert_any_elements_packed:
  "list_all (round_trips lib) objects \<Longrightarrow>
     convert_any_elements lib (map (\<lambda>obj. Msg (Pack lib obj)) objects)
     = Inr (map (\<lambda>obj. Msg (Pack lib obj)) objects)"
  by (induction objects) (simp_all add: unpack_new_Pack)

text \<open>The body of the loop copies a conforming value of a field to the field itself.\<close>

lemma convert_field_itself:
  assumes shape: "conforms fd v"
    and map_field: "is_map_field fd = Inr mb"
    and entry: "mb \<longrightarrow> (\<exists>m vf. message_type fd = Some m
                               \<and> fields_by_name m ''value'' = Some vf)"
    and no_group: "label fd = LABEL_REPEATED \<or> ftype fd \<noteq> TYPE_GROUP"
    and boxes: "label fd = LABEL_REPEATED \<and> is_any_field fd \<longrightarrow>
                  (\<exists>objects. v = RepeatedField (map (\<lambda>obj. Msg (Pack lib obj)) objects)
                     \<and> list_all (round_trips lib) objects)"
  shows "convert_field lib fd fd None v = Inr v"
proof (cases mb)
  case True
  with shape map_field entry obtain m vf es where "message_type fd = Some m"
    "fields_by_name m ''value'' = Some vf" "v = MapField es" "distinct (map fst es)"
    by (auto simp: conforms_def split: field_value.splits)
  with True map_field show ?thesis
    by (simp add: convert_field_def merge_entries_empty)
next
  case False
  with map_field have no_map: "is_map_field fd = Inr False"
    by simp
  show ?thesis
  proof (cases "label fd = LABEL_REPEATED")
    case True
    show ?thesis
    proof (cases "is_any_field fd")
      case any: True
      with True boxes obtain objects where
        "v = RepeatedField (map (\<lambda>obj. Msg (Pack lib obj)) objects)"
        "list_all (round_trips lib) objects"
        by blast
      with True any no_map show ?thesis
        by (simp add: convert_field_def convert_any_elements_packed)
    next
      case no_any: False
      from shape no_map True obtain elements where "v = RepeatedField elements"
        by (auto simp: conforms_def split: field_value.splits)
      with True no_any no_map show ?thesis
        by (simp add: convert_field_def)
    qed
  next
    case singular: False
    with no_group have group: "ftype fd \<noteq> TYPE_GROUP"
      by simp
    show ?thesis
    proof (cases "ftype fd = TYPE_MESSAGE")
      case True
      with shape no_map singular obtain m where "v = Msg m"
        by (auto simp: conforms_def split: field_value.splits)
      with True singular no_map show ?thesis
        by (simp add: convert_field_def)
    next
      case False
      with singular group no_map show ?thesis
        by (simp add: convert_field_def)
    qed
  qed
qed

text \<open>The loop completes when each listed value is copied to a field that is still unset.\<close>

lemma auto_convert_fields_completes:
  "distinct (map (name \<circ> fst) listed) \<Longrightarrow>
     \<forall>(fd, v) \<in> set listed.
        fields_by_name (DESCRIPTOR dest_proto) (name fd) = Some fd
        \<and> convert_field lib fd fd None v = Inr v
        \<and> map_of (set_fields dest_proto) (name fd) = None \<Longrightarrow>
     \<exists>dest_proto'. auto_convert_fields lib self listed dest_proto = Inr dest_proto'"
proof (induction listed arbitrary: dest_proto)
  case Nil
  then show ?case by simp
next
  case (Cons entry listed)
  obtain fd v where entry: "entry = (fd, v)"
    by (cases entry)
  from Cons.prems(1) entry have fresh: "name fd \<notin> (name \<circ> fst) ` set listed"
    and rest: "distinct (map (name \<circ> fst) listed)"
    by (auto simp: comp_def)
  from Cons.prems(2) entry have
    dfd: "fields_by_name (DESCRIPTOR dest_proto) (name fd) = Some fd"
    and copy: "convert_field lib fd fd None v = Inr v"
    and unset: "map_of (set_fields dest_proto) (name fd) = None"
    by auto
  show ?case
  proof (cases "name fd \<in> set (field_names_to_ignore self)
                \<or> name fd \<in> set (unconverted_fields self)")
    case True
    from Cons.prems(2) have "\<forall>(fd, v) \<in> set listed.
        fields_by_name (DESCRIPTOR dest_proto) (name fd) = Some fd
        \<and> convert_field lib fd fd None v = Inr v
        \<and> map_of (set_fields dest_proto) (name fd) = None"
      by simp
    from Cons.IH [OF rest this] True entry show ?thesis
      by simp
  next
    case False
    have "\<forall>(fd', v') \<in> set listed.
        fields_by_name (DESCRIPTOR (setattr dest_proto (name fd) v)) (name fd') = Some fd'
        \<and> convert_field lib fd' fd' None v' = Inr v'
        \<and> map_of (set_fields (setattr dest_proto (name fd) v)) (name fd') = None"
    proof (clarify)
      fix fd' v' assume member: "(fd', v') \<in> set listed"
      with fresh have "name fd' \<noteq> name fd"
        by force
      with Cons.prems(2) member
      show "fields_by_name (DESCRIPTOR (setattr dest_proto (name fd) v)) (name fd') = Some fd'
        \<and> convert_field lib fd' fd' None v' = Inr v'
        \<and> map_of (set_fields (setattr dest_proto (name fd) v)) (name fd') = None"
        by (auto simp: DESCRIPTOR_setattr map_of_setattr)
    qed
    from Cons.IH [OF rest this] False entry dfd copy unset show ?thesis
      by simp
  qed
qed

text \<open>What \<^verbatim>\<open>ListFields\<close> lists.\<close>

lemma map_filter_member:
  "y \<in> set (List.map_filter g xs) \<longleftrightarrow> (\<exists>x \<in> set xs. g x = Some y)"
  by (induction xs) (auto split: option.splits)

lemma ListFields_member:
  "(fd, v) \<in> set (ListFields m) \<longleftrightarrow>
     fd \<in> set (fields (DESCRIPTOR m)) \<and> map_of (set_fields m) (name fd) = Some v
     \<and> is_populated v"
  unfolding ListFields_def map_filter_member
  by (auto split: option.splits if_splits)

lemma map_filter_cong_list:
  "\<forall>x \<in> set xs. g x = h x \<Longrightarrow> List.map_filter g xs = List.map_filter h xs"
  by (induction xs) (auto split: option.splits)

text \<open>
  C9, as the code has it. For a schema whose field names are distinct, whose one-of
  groups share no member and on whose fields the analysis returns, and an instance of it
  whose listed values have the shape their fields declare, in which no singular field of
  group type is set, and in which the elements of every repeated field of any-wrappers
  are the library's packings of instances it can carry (their types registered under
  their full names, their encodings decoded back to them): the converter from the schema
  to itself with no ignored field and no user function is constructed, and \<^verbatim>\<open>convert\<close>
  returns an instance deep-equal to the source.
\<close>

theorem C9_round_trip:
  assumes names: "distinct (map name (fields T))"
    and groups: "distinct (concat (map snd (oneofs T)))"
    and analysis: "get_unhandled_fields (fields T) (fields_by_name T) [] = Inr unconverted"
    and inst: "DESCRIPTOR src_proto = T"
    and vals: "\<forall>(fd, v) \<in> set (ListFields src_proto). conforms fd v"
    and no_group: "\<forall>(fd, v) \<in> set (ListFields src_proto).
                     label fd = LABEL_REPEATED \<or> ftype fd \<noteq> TYPE_GROUP"
    and boxes: "\<forall>(fd, v) \<in> set (ListFields src_proto).
                  label fd = LABEL_REPEATED \<and> is_any_field fd \<longrightarrow>
                  (\<exists>objects. v = RepeatedField (map (\<lambda>obj. Msg (Pack lib obj)) objects)
                     \<and> list_all (round_trips lib) objects)"
  shows "\<exists>self dest_proto.
           ProtoConverter_init [] T T [] = Inr self
           \<and> convert lib self src_proto = ([], Inr dest_proto)
           \<and> deep_equal dest_proto src_proto"
proof -
  let ?self = "ProtoConverter T T [] [] [] []"
  have verdict: "\<exists>b. is_src_field_auto_convertible f (fields_by_name T) = Inr b"
    if "f \<in> set (fields T)" for f
    using unhandled_verdicts [OF analysis that] by simp
  have itself: "fields_by_name T (name f) = Some f" if "f \<in> set (fields T)" for f
    using names that by (rule fields_by_name_member)
  have "set unconverted = {}"
    unfolding unhandled_set [OF analysis]
    using self_convertible itself by fastforce
  then have unconverted: "unconverted = []"
    by simp
  have init: "ProtoConverter_init [] T T [] = Inr ?self"
    unfolding ProtoConverter_init_def analysis unconverted
    by (simp add: dir_class_def validate_against_itself [OF groups])
  let ?listed = "ListFields src_proto"
  have listed_names: "distinct (map (name \<circ> fst) ?listed)"
    using names inst by (intro ListFields_distinct) simp
  have copy: "fields_by_name T (name fd) = Some fd \<and> convert_field lib fd fd None v = Inr v"
    if "(fd, v) \<in> set ?listed" for fd v
  proof -
    from that inst have member: "fd \<in> set (fields T)"
      by (simp add: ListFields_member)
    from verdict [OF member] obtain b where
      "is_src_field_auto_convertible fd (fields_by_name T) = Inr b" ..
    from analysed_map_field [OF this itself [OF member]] obtain mb where
      "is_map_field fd = Inr mb"
      "mb \<longrightarrow> (\<exists>m vf. message_type fd = Some m \<and> fields_by_name m ''value'' = Some vf)"
      by blast
    moreover from vals that have "conforms fd v"
      by blast
    moreover from no_group that have "label fd = LABEL_REPEATED \<or> ftype fd \<noteq> TYPE_GROUP"
      by blast
    moreover from boxes that have
      "label fd = LABEL_REPEATED \<and> is_any_field fd \<longrightarrow>
         (\<exists>objects. v = RepeatedField (map (\<lambda>obj. Msg (Pack lib obj)) objects)
            \<and> list_all (round_trips lib) objects)"
      by blast
    ultimately have "convert_field lib fd fd None v = Inr v"
      by (intro convert_field_itself)
    with itself [OF member] show ?thesis
      by simp
  qed
  then have "\<forall>(fd, v) \<in> set ?listed.
        fields_by_name (DESCRIPTOR (Message T [])) (name fd) = Some fd
        \<and> convert_field lib fd fd None v = Inr v
        \<and> map_of (set_fields (Message T [])) (name fd) = None"
    by auto
  from auto_convert_fields_completes [OF listed_names this, of ?self]
  obtain dest_proto where
    run: "auto_convert_fields lib ?self ?listed (Message T []) = Inr dest_proto"
    by blast
  have descriptor: "DESCRIPTOR dest_proto = T"
    using auto_convert_fields_descriptor [OF run] by simp
  have stored: "map_of (set_fields dest_proto) (name fd) = Some v"
    if "(fd, v) \<in> set ?listed" for fd v
    using auto_convert_fields_field [OF run listed_names that] copy [OF that]
    by auto
  have absent: "map_of (set_fields dest_proto) (name fd) = None"
    if member: "fd \<in> set (fields T)" and unlisted: "\<forall>v. (fd, v) \<notin> set ?listed" for fd
  proof -
    have "name fd \<notin> (name \<circ> fst) ` set ?listed"
    proof
      assume "name fd \<in> (name \<circ> fst) ` set ?listed"
      then obtain fd' v' where listed': "(fd', v') \<in> set ?listed" and same: "name fd' = name fd"
        by force
      from listed' inst have "fd' \<in> set (fields T)"
        by (simp add: ListFields_member)
      from itself [OF this] itself [OF member] same have "fd' = fd"
        by (metis option.inject)
      with listed' unlisted show False
        by blast
    qed
    from auto_convert_fields_other [OF run this] show ?thesis
      by simp
  qed
  have "ListFields dest_proto = ListFields src_proto"
    unfolding ListFields_def descriptor inst
  proof (rule map_filter_cong_list, rule ballI)
    fix fd assume member: "fd \<in> set (fields T)"
    show "(case map_of (set_fields dest_proto) (name fd) of
             None \<Rightarrow> None
           | Some v \<Rightarrow> if is_populated v then Some (fd, v) else None)
          = (case map_of (set_fields src_proto) (name fd) of
               None \<Rightarrow> None
             | Some v \<Rightarrow> if is_populated v then Some (fd, v) else None)"
    proof (cases "\<exists>v. (fd, v) \<in> set ?listed")
      case True
      then obtain v where listed: "(fd, v) \<in> set ?listed" ..
      with stored [OF listed] show ?thesis
        by (simp add: ListFields_member)
    next
      case False
      with absent [OF member] member inst show ?thesis
        by (auto simp: ListFields_member split: option.splits)
    qed
  qed
  with descriptor inst have equal: "deep_equal dest_proto src_proto"
    by (simp add: deep_equal_def)
  from run inst have "convert lib ?self src_proto = ([], Inr dest_proto)"
    by (simp add: convert_def auto_convert_def)
  with init equal show ?thesis
    by blast
qed

theorem C9_round_trip_witness:
  "\<exists>self dest_proto.
     ProtoConverter_init [] Basket Basket [] = Inr self
     \<and> convert toy_library self basket_of_jelly = ([], Inr dest_proto)
     \<and> deep_equal dest_proto basket_of_jelly"
proof -
  let ?items = "FieldDescriptor ''items'' LABEL_REPEATED TYPE_MESSAGE (Some Any_DESCRIPTOR)"
  have names: "distinct (map name (fields Basket))"
    by (simp add: Basket_def)
  have groups: "distinct (concat (map snd (oneofs Basket)))"
    by (simp add: Basket_def)
  have analysis: "get_unhandled_fields (fields Basket) (fields_by_name Basket) [] = Inr []"
    by code_simp
  have inst: "DESCRIPTOR basket_of_jelly = Basket"
    by (simp add: basket_of_jelly_def)
  have listed: "ListFields basket_of_jelly
    = [(?items, RepeatedField [Msg (Pack toy_library jelly)])]"
    by code_simp
  have "conforms ?items (RepeatedField [Msg (Pack toy_library jelly)])"
    by code_simp
  then have vals: "\<forall>(fd, v) \<in> set (ListFields basket_of_jelly). conforms fd v"
    unfolding listed by simp
  have no_group: "\<forall>(fd, v) \<in> set (ListFields basket_of_jelly).
                    label fd = LABEL_REPEATED \<or> ftype fd \<noteq> TYPE_GROUP"
    unfolding listed by simp
  have carried: "round_trips toy_library jelly"
    by code_simp
  have "RepeatedField [Msg (Pack toy_library jelly)]
          = RepeatedField (map (\<lambda>obj. Msg (Pack toy_library obj)) [jelly])
        \<and> list_all (round_trips toy_library) [jelly]"
    using carried by simp
  then have "\<exists>objects. RepeatedField [Msg (Pack toy_library jelly)]
                = RepeatedField (map (\<lambda>obj. Msg (Pack toy_library obj)) objects)
              \<and> list_all (round_trips toy_library) objects"
    by (rule exI)
  then have boxes: "\<forall>(fd, v) \<in> set (ListFields basket_of_jelly).
                  label fd = LABEL_REPEATED \<and> is_any_field fd \<longrightarrow>
                  (\<exists>objects. v = RepeatedField (map (\<lambda>obj. Msg (Pack toy_library obj)) objects)
                     \<and> list_all (round_trips toy_library) objects)"
    unfolding listed by simp
  from C9_round_trip [OF names groups analysis inst vals no_group boxes]
  show ?thesis .
qed

text \<open>
  C9 as stated fails three times, the converter being constructed each time. The item of
  the first basket names no type, the registry finds none, and \<^verbatim>\<open>convert\<close> raises. The item
  of the second basket holds a Topping under a type URL with another prefix, \<^verbatim>\<open>convert\<close>
  packs the Topping again under the prefix of \<^verbatim>\<open>Pack\<close>, and the instance returned is not
  deep-equal to the source. The crate has its singular field of group type set, and the
  assignment of line 197 raises.
\<close>

theorem C9_round_trip_fails_counterexample:
  "DESCRIPTOR basket_of_nothing = Basket
   \<and> map_sum id (\<lambda>self. snd (convert toy_library self basket_of_nothing))
       (ProtoConverter_init [] Basket Basket [])
     = Inr (Inl (KeyError ''''))
   \<and> DESCRIPTOR basket_from_elsewhere = Basket
   \<and> map_sum id (\<lambda>self. snd (convert toy_library self basket_from_elsewhere))
       (ProtoConverter_init [] Basket Basket [])
     = Inr (Inr basket_of_jelly)
   \<and> \<not> deep_equal basket_of_jelly basket_from_elsewhere
   \<and> DESCRIPTOR crate_of_jelly = Crate
   \<and> map_sum id (\<lambda>self. snd (convert toy_library self crate_of_jelly))
       (ProtoConverter_init [] Crate Crate [])
     = Inr (Inl (AttributeError ''Assignment not allowed''))"
  by code_simp

end
